theory Spec2Isabelle
  imports Complex_Main "HOL-Library.Word"
begin

unbundle bit_operations_syntax

section \<open>The Gravis UltraSound GF1 synthesizer of \<^verbatim>\<open>src/hardware/gus.cpp\<close>\<close>

text \<open>
  A shallow embedding of the GUS emulation: the global register file \<^verbatim>\<open>myGUS\<close>, the 32
  voices \<^verbatim>\<open>guschan\<close>, the sample memory \<^verbatim>\<open>GUSRam\<close>, the port handlers and the mixer
  callback. Unsigned C++ integers of width w are \<open>w word\<close>; a C++ member function of a
  voice that also touches \<^verbatim>\<open>myGUS\<close> takes and returns the pair of the voice and the register
  file.
\<close>

subsection \<open>Faults\<close>

text \<open>
  Where the C++ has no defined result the model returns a fault: an array read or written
  past its end, a shift by the width of its operand or more, a conversion of a float
  outside the range of the target integer, and a loop that never returns.
\<close>

datatype fault = OutOfBounds | BadShift | BadConversion | Diverges

type_synonym 'a res = "fault + 'a"

definition bind_res :: "'a res \<Rightarrow> ('a \<Rightarrow> 'b res) \<Rightarrow> 'b res" where
  "bind_res m f = (case m of Inl e \<Rightarrow> Inl e | Inr x \<Rightarrow> f x)"

subsection \<open>Single-precision arithmetic\<close>

text \<open>
  The samples, the peaks and the timer delays are C++ \<^verbatim>\<open>float\<close>s. The model leaves their
  representation open: every function takes the arithmetic as a record of operations over
  a type \<open>'f\<close>, together with the two tables \<^verbatim>\<open>vol_scalars\<close> and \<^verbatim>\<open>pan_scalars\<close> that
  \<^verbatim>\<open>PopulateVolScalars\<close> and \<^verbatim>\<open>PopulatePanScalars\<close> fill once at construction (with
  \<^verbatim>\<open>double\<close> arithmetic, \<^verbatim>\<open>cos\<close> and \<^verbatim>\<open>sin\<close>) and nothing writes afterwards. What is
  proved for every such record holds for IEEE single precision in particular.
  \<open>fround\<close> is the conversion of an integer or of a decimal literal to \<^verbatim>\<open>float\<close>,
  \<open>f_to_i16\<close> the conversion \<^verbatim>\<open>static_cast<int16_t>\<close>, undefined (\<open>None\<close>) outside the
  range of \<^verbatim>\<open>int16_t\<close>.
\<close>

record 'f float_env =
  fround :: "rat \<Rightarrow> 'f"
  fadd :: "'f \<Rightarrow> 'f \<Rightarrow> 'f"
  fsub :: "'f \<Rightarrow> 'f \<Rightarrow> 'f"
  fmul :: "'f \<Rightarrow> 'f \<Rightarrow> 'f"
  fdiv :: "'f \<Rightarrow> 'f \<Rightarrow> 'f"
  fless :: "'f \<Rightarrow> 'f \<Rightarrow> bool"
  fabs :: "'f \<Rightarrow> 'f"
  f_to_i16 :: "'f \<Rightarrow> 16 word option"
  vol_scalars :: "nat \<Rightarrow> 'f"
  pan_scalars :: "nat \<Rightarrow> 'f \<times> 'f"

text \<open>\<^verbatim>\<open>std::max\<close> and \<^verbatim>\<open>std::min\<close>, as the standard library defines them from \<^verbatim>\<open><\<close>.\<close>

definition fmax :: "'f float_env \<Rightarrow> 'f \<Rightarrow> 'f \<Rightarrow> 'f" where
  "fmax E a b = (if fless E a b then b else a)"

definition fmin :: "'f float_env \<Rightarrow> 'f \<Rightarrow> 'f \<Rightarrow> 'f" where
  "fmin E a b = (if fless E b a then b else a)"

definition f_of_int :: "'f float_env \<Rightarrow> int \<Rightarrow> 'f" where
  "f_of_int E i = fround E (of_int i)"

subsection \<open>Constants\<close>

definition WAVE_FRACT :: nat where "WAVE_FRACT = 9"
definition WAVE_FRACT_MASK :: "32 word" where "WAVE_FRACT_MASK = push_bit WAVE_FRACT 1 - 1"
definition WAVE_MSWMASK :: "32 word" where "WAVE_MSWMASK = push_bit 16 1 - 1"
definition WAVE_LSWMASK :: "32 word" where "WAVE_LSWMASK = 0xffffffff XOR WAVE_MSWMASK"

definition GUS_MIN_CHANNELS :: nat where "GUS_MIN_CHANNELS = 14"
definition GUS_MAX_CHANNELS :: nat where "GUS_MAX_CHANNELS = 32"
definition GUS_BUFFER_FRAMES :: nat where "GUS_BUFFER_FRAMES = 64"
definition GUS_PAN_POSITIONS :: nat where "GUS_PAN_POSITIONS = 16"
definition GUS_VOLUME_POSITIONS :: nat where "GUS_VOLUME_POSITIONS = 4096"
definition GUS_VOLUME_SCALE_DIV :: rat where "GUS_VOLUME_SCALE_DIV = 1002709201 / 1000000000"
definition GUS_RAM_SIZE :: nat where "GUS_RAM_SIZE = 1048576"

definition WCTRL_STOPPED :: "8 word" where "WCTRL_STOPPED = 0x01"
definition WCTRL_STOP :: "8 word" where "WCTRL_STOP = 0x02"
definition WCTRL_16BIT :: "8 word" where "WCTRL_16BIT = 0x04"
definition WCTRL_LOOP :: "8 word" where "WCTRL_LOOP = 0x08"
definition WCTRL_BIDIRECTIONAL :: "8 word" where "WCTRL_BIDIRECTIONAL = 0x10"
definition WCTRL_IRQENABLED :: "8 word" where "WCTRL_IRQENABLED = 0x20"
definition WCTRL_DECREASING :: "8 word" where "WCTRL_DECREASING = 0x40"
definition WCTRL_IRQPENDING :: "8 word" where "WCTRL_IRQPENDING = 0x80"

subsection \<open>The register file and the voices\<close>

record 'f Frame =
  left :: 'f
  right :: 'f

record 'f GusTimer =
  timer_value :: "8 word"
  reached :: bool
  raiseirq :: bool
  masked :: bool
  running :: bool
  delay :: 'f

text \<open>\<^verbatim>\<open>struct GFGus\<close>; its array \<^verbatim>\<open>timers[2]\<close> is the pair of fields \<open>timer0\<close>, \<open>timer1\<close>.\<close>

record 'f GFGus =
  gRegSelect :: "8 word"
  gRegData :: "16 word"
  gDramAddr :: "32 word"
  gCurChannel :: "16 word"
  DMAControl :: "8 word"
  dmaAddr :: "16 word"
  TimerControl :: "8 word"
  SampControl :: "8 word"
  mixControl :: "8 word"
  ActiveChannels :: "8 word"
  basefreq :: "32 word"
  timer0 :: "'f GusTimer"
  timer1 :: "'f GusTimer"
  rate :: "32 word"
  peak_amplitude :: "'f Frame"
  portbase :: nat
  dma1 :: "8 word"
  dma2 :: "8 word"
  irq1 :: "8 word"
  irq2 :: "8 word"
  irqenabled :: bool
  ChangeIRQDMA :: bool
  IRQStatus :: "8 word"
  ActiveMask :: "32 word"
  IRQChan :: "8 word"
  RampIRQ :: "32 word"
  WaveIRQ :: "32 word"

text \<open>
  \<^verbatim>\<open>class GUSChannels\<close>. The member pointer \<^verbatim>\<open>getSample\<close> selects one of the two samplers
  and the pointer \<^verbatim>\<open>generated_ms\<close> one of the two counters; both are the tag \<open>sampler\<close>.
\<close>

datatype sampler = Sample8 | Sample16

record GUSChannels =
  getSample :: sampler
  WaveStart :: "32 word"
  WaveEnd :: "32 word"
  WaveAddr :: "32 word"
  WaveAdd :: "32 word"
  WaveCtrl :: "8 word"
  WaveFreq :: "16 word"
  StartVolIndex :: "32 word"
  EndVolIndex :: "32 word"
  CurrentVolIndex :: "32 word"
  IncrVolIndex :: "32 word"
  RampRate :: "8 word"
  RampCtrl :: "8 word"
  PanPot :: "8 word"
  channum :: "8 word"
  irqmask :: "32 word"
  generated_8bit_ms :: "32 word"
  generated_16bit_ms :: "32 word"
  generated_ms :: sampler

text \<open>The constructor \<^verbatim>\<open>GUSChannels(uint8_t num)\<close> with the default member initialisers.\<close>

definition new_GUSChannels :: "nat \<Rightarrow> GUSChannels" where
  "new_GUSChannels num =
     \<lparr> getSample = Sample8, WaveStart = 0, WaveEnd = 0, WaveAddr = 0, WaveAdd = 0,
       WaveCtrl = 3, WaveFreq = 0, StartVolIndex = 0, EndVolIndex = 0,
       CurrentVolIndex = 0, IncrVolIndex = 0, RampRate = 0, RampCtrl = 3, PanPot = 7,
       channum = of_nat num, irqmask = push_bit num 1,
       generated_8bit_ms = 0, generated_16bit_ms = 0, generated_ms = Sample8 \<rparr>"

definition ClearStats :: "GUSChannels \<Rightarrow> GUSChannels" where
  "ClearStats v = v\<lparr> generated_8bit_ms := 0, generated_16bit_ms := 0 \<rparr>"

subsection \<open>Writing the voice registers\<close>

text \<open>
  Modelled from the spec: \<^verbatim>\<open>ceil_udivide\<close> is declared in \<^verbatim>\<open>support.h\<close>, which is not
  among the sources. The spec writes its results as \<open>ceil(freq/2)\<close> and
  \<open>ceil(scale / divider)\<close>: the least integer that is not below the quotient.
\<close>

definition ceil_udivide :: "nat \<Rightarrow> nat \<Rightarrow> nat" where
  "ceil_udivide x y = nat \<lceil>(of_nat x :: rat) / of_nat y\<rceil>"

definition WriteWaveFreq :: "16 word \<Rightarrow> GUSChannels \<Rightarrow> GUSChannels" where
  "WriteWaveFreq val v =
     v\<lparr> WaveFreq := val, WaveAdd := of_nat (ceil_udivide (unat val) 2) \<rparr>"

definition ReadWaveCtrl :: "GUSChannels \<Rightarrow> 'f GFGus \<Rightarrow> 8 word" where
  "ReadWaveCtrl v g =
     (if WaveIRQ g AND irqmask v \<noteq> 0 then WaveCtrl v OR 0x80 else WaveCtrl v)"

definition WritePanPot :: "8 word \<Rightarrow> GUSChannels \<Rightarrow> GUSChannels" where
  "WritePanPot pos v = v\<lparr> PanPot := min pos (of_nat (GUS_PAN_POSITIONS - 1)) \<rparr>"

definition ReadPanPot :: "GUSChannels \<Rightarrow> 8 word" where
  "ReadPanPot v = PanPot v"

definition ReadRampCtrl :: "GUSChannels \<Rightarrow> 'f GFGus \<Rightarrow> 8 word" where
  "ReadRampCtrl v g =
     (if RampIRQ g AND irqmask v \<noteq> 0 then RampCtrl v OR 0x80 else RampCtrl v)"

text \<open>
  \<^verbatim>\<open>const uint8_t divider = 1 << (3 * (val >> 6))\<close>: the shift is computed on \<^verbatim>\<open>int\<close> and
  the result is stored in eight bits.
\<close>

definition WriteRampRate :: "8 word \<Rightarrow> GUSChannels \<Rightarrow> GUSChannels" where
  "WriteRampRate val v =
     (let scale = val AND 63;
          divider = (ucast (push_bit (3 * unat (drop_bit 6 val)) (1 :: 32 word)) :: 8 word)
      in v\<lparr> RampRate := val,
            IncrVolIndex := (if scale = 0 \<or> divider = 0 then 0
                             else of_nat (ceil_udivide (unat scale) (unat divider))) \<rparr>)"

definition UpdateWaveRamp :: "GUSChannels \<Rightarrow> GUSChannels" where
  "UpdateWaveRamp v = WriteRampRate (RampRate v) (WriteWaveFreq (WaveFreq v) v)"

subsection \<open>The voice interrupts\<close>

text \<open>
  \<^verbatim>\<open>GUS_CheckIRQ\<close> only calls the interrupt controller (\<^verbatim>\<open>PIC_ActivateIRQ\<close>). Calls into
  the interrupt controller, the DMA controller, the mixer channel (\<^verbatim>\<open>SetFreq\<close>,
  \<^verbatim>\<open>Enable\<close>) and the log change nothing of the state modelled here and are left out;
  the frames handed to \<^verbatim>\<open>AddSamples_s16\<close> are the result of \<open>GUS_CallBack\<close>.

  The loop \<^verbatim>\<open>for (;;)\<close> of \<^verbatim>\<open>CheckVoiceIrq\<close> changes \<^verbatim>\<open>IRQChan\<close> only, an 8-bit counter.
  Its next value is a function of the current one, so a run that has not returned within
  256 rounds has met some value twice and never returns: \<open>irq_scan 256\<close> is the loop
  itself, with \<open>Diverges\<close> for the runs that do not end.
\<close>

fun irq_scan :: "nat \<Rightarrow> 32 word \<Rightarrow> 8 word \<Rightarrow> 8 word \<Rightarrow> 8 word res" where
  "irq_scan 0 totalmask ac c = Inl Diverges"
| "irq_scan (Suc n) totalmask ac c =
     (if 32 \<le> unat c then Inl BadShift
      else if totalmask AND push_bit (unat c) 1 \<noteq> 0 then Inr c
      else irq_scan n totalmask ac (if ac \<le> c + 1 then 0 else c + 1))"

definition CheckVoiceIrq :: "'f GFGus \<Rightarrow> 'f GFGus res" where
  "CheckVoiceIrq g0 =
     (let g = g0\<lparr> IRQStatus := IRQStatus g0 AND 0x9f \<rparr>;
          totalmask = (RampIRQ g OR WaveIRQ g) AND ActiveMask g
      in if totalmask = 0 then Inr g
         else
           let g1 = (if RampIRQ g \<noteq> 0 then g\<lparr> IRQStatus := IRQStatus g OR 0x40 \<rparr> else g);
               g2 = (if WaveIRQ g1 \<noteq> 0 then g1\<lparr> IRQStatus := IRQStatus g1 OR 0x20 \<rparr> else g1)
           in bind_res (irq_scan 256 totalmask (ActiveChannels g2) (IRQChan g2))
                (\<lambda>c. Inr (g2\<lparr> IRQChan := c \<rparr>)))"

definition WriteWaveCtrl ::
  "8 word \<Rightarrow> GUSChannels \<Rightarrow> 'f GFGus \<Rightarrow> (GUSChannels \<times> 'f GFGus) res" where
  "WriteWaveCtrl val v0 g0 =
     (let oldirq = WaveIRQ g0;
          v1 = v0\<lparr> WaveCtrl := val AND 0x7f \<rparr>;
          v = (if WaveCtrl v1 AND WCTRL_16BIT \<noteq> 0
               then v1\<lparr> getSample := Sample16, generated_ms := Sample16 \<rparr>
               else v1\<lparr> getSample := Sample8, generated_ms := Sample8 \<rparr>);
          g = (if val AND 0xa0 = 0xa0
               then g0\<lparr> WaveIRQ := WaveIRQ g0 OR irqmask v \<rparr>
               else g0\<lparr> WaveIRQ := WaveIRQ g0 AND NOT (irqmask v) \<rparr>)
      in if oldirq \<noteq> WaveIRQ g
         then bind_res (CheckVoiceIrq g) (\<lambda>g'. Inr (v, g'))
         else Inr (v, g))"

definition WriteRampCtrl ::
  "8 word \<Rightarrow> GUSChannels \<Rightarrow> 'f GFGus \<Rightarrow> (GUSChannels \<times> 'f GFGus) res" where
  "WriteRampCtrl val v0 g0 =
     (let old = RampIRQ g0;
          v = v0\<lparr> RampCtrl := val AND 0x7f \<rparr>;
          g = (if val AND 0xa0 = 0xa0
               then g0\<lparr> RampIRQ := RampIRQ g0 OR irqmask v \<rparr>
               else g0\<lparr> RampIRQ := RampIRQ g0 AND NOT (irqmask v) \<rparr>)
      in if old \<noteq> RampIRQ g
         then bind_res (CheckVoiceIrq g) (\<lambda>g'. Inr (v, g'))
         else Inr (v, g))"

subsection \<open>Advancing a voice by one frame\<close>

text \<open>
  \<^verbatim>\<open>WaveLeft\<close> and \<^verbatim>\<open>RemainingVolIndexes\<close> are \<^verbatim>\<open>int32_t\<close>: the unsigned difference read
  as two's complement (\<open>sint\<close>).
\<close>

definition WaveUpdate :: "GUSChannels \<Rightarrow> 'f GFGus \<Rightarrow> GUSChannels \<times> 'f GFGus" where
  "WaveUpdate v g =
     (if WaveCtrl v AND (WCTRL_STOP OR WCTRL_STOPPED) \<noteq> 0 then (v, g)
      else
        let v1 = (if WaveCtrl v AND WCTRL_DECREASING \<noteq> 0
                  then v\<lparr> WaveAddr := WaveAddr v - WaveAdd v \<rparr>
                  else v\<lparr> WaveAddr := WaveAddr v + WaveAdd v \<rparr>);
            WaveLeft = (if WaveCtrl v AND WCTRL_DECREASING \<noteq> 0
                        then WaveStart v1 - WaveAddr v1
                        else WaveAddr v1 - WaveEnd v1)
        in if sint WaveLeft < 0 then (v1, g)
           else
             let g1 = (if WaveCtrl v1 AND 0x20 \<noteq> 0
                       then g\<lparr> WaveIRQ := WaveIRQ g OR irqmask v1 \<rparr> else g)
             in if RampCtrl v1 AND 0x04 \<noteq> 0 then (v1, g1)
                else if WaveCtrl v1 AND WCTRL_LOOP \<noteq> 0 then
                  let v2 = (if WaveCtrl v1 AND WCTRL_BIDIRECTIONAL \<noteq> 0
                            then v1\<lparr> WaveCtrl := WaveCtrl v1 XOR WCTRL_DECREASING \<rparr>
                            else v1)
                  in (v2\<lparr> WaveAddr := (if WaveCtrl v2 AND WCTRL_DECREASING \<noteq> 0
                                        then WaveEnd v2 - WaveLeft
                                        else WaveStart v2 + WaveLeft) \<rparr>, g1)
                else
                  let v2 = v1\<lparr> WaveCtrl := WaveCtrl v1 OR 1 \<rparr>
                  in (v2\<lparr> WaveAddr := (if WaveCtrl v2 AND WCTRL_DECREASING \<noteq> 0
                                        then WaveStart v2 else WaveEnd v2) \<rparr>, g1))"

definition RampUpdate :: "GUSChannels \<Rightarrow> 'f GFGus \<Rightarrow> GUSChannels \<times> 'f GFGus" where
  "RampUpdate v g =
     (if RampCtrl v AND 0x3 \<noteq> 0 then (v, g)
      else
        let v1 = (if RampCtrl v AND 0x40 \<noteq> 0
                  then v\<lparr> CurrentVolIndex := CurrentVolIndex v - IncrVolIndex v \<rparr>
                  else v\<lparr> CurrentVolIndex := CurrentVolIndex v + IncrVolIndex v \<rparr>);
            RemainingVolIndexes = (if RampCtrl v AND 0x40 \<noteq> 0
                                   then StartVolIndex v1 - CurrentVolIndex v1
                                   else CurrentVolIndex v1 - EndVolIndex v1)
        in if sint RemainingVolIndexes < 0 then (v1, g)
           else
             let g1 = (if RampCtrl v1 AND 0x20 \<noteq> 0
                       then g\<lparr> RampIRQ := RampIRQ g OR irqmask v1 \<rparr> else g)
             in if RampCtrl v1 AND 0x08 \<noteq> 0 then
                  let v2 = (if RampCtrl v1 AND 0x10 \<noteq> 0
                            then v1\<lparr> RampCtrl := RampCtrl v1 XOR 0x40 \<rparr> else v1)
                  in (v2\<lparr> CurrentVolIndex := (if RampCtrl v2 AND 0x40 \<noteq> 0
                                               then EndVolIndex v2 - RemainingVolIndexes
                                               else StartVolIndex v2 + RemainingVolIndexes) \<rparr>,
                      g1)
                else
                  let v2 = v1\<lparr> RampCtrl := RampCtrl v1 OR 1 \<rparr>
                  in (v2\<lparr> CurrentVolIndex := (if RampCtrl v2 AND 0x40 \<noteq> 0
                                               then StartVolIndex v2 else EndVolIndex v2) \<rparr>,
                      g1))"

subsection \<open>Fetching a sample\<close>

text \<open>
  \<^verbatim>\<open>GUSRam\<close> is an array of \<open>GUS_RAM_SIZE\<close> bytes; \<^verbatim>\<open>vol_scalars\<close> and \<^verbatim>\<open>pan_scalars\<close>
  have \<open>GUS_VOLUME_POSITIONS\<close> and \<open>GUS_PAN_POSITIONS\<close> entries. The C++ indexes them
  unchecked; an index past the end is a fault of the model.
\<close>

definition ram_read :: "(nat \<Rightarrow> 8 word) \<Rightarrow> nat \<Rightarrow> 8 word res" where
  "ram_read ram a = (if a < GUS_RAM_SIZE then Inr (ram a) else Inl OutOfBounds)"

definition vol_scalar_at :: "'f float_env \<Rightarrow> 32 word \<Rightarrow> 'f res" where
  "vol_scalar_at E i =
     (if unat i < GUS_VOLUME_POSITIONS then Inr (vol_scalars E (unat i)) else Inl OutOfBounds)"

definition pan_scalar_at :: "'f float_env \<Rightarrow> 8 word \<Rightarrow> ('f \<times> 'f) res" where
  "pan_scalar_at E p =
     (if unat p < GUS_PAN_POSITIONS then Inr (pan_scalars E (unat p)) else Inl OutOfBounds)"

text \<open>
  The two assertions of the samplers are disjunctions that hold of every number and are
  compiled out of a release build; the model has none.
\<close>

definition GetSample8 :: "'f float_env \<Rightarrow> (nat \<Rightarrow> 8 word) \<Rightarrow> GUSChannels \<Rightarrow> 'f res" where
  "GetSample8 E ram v =
     (let useAddr = drop_bit WAVE_FRACT (WaveAddr v) in
      bind_res (ram_read ram (unat useAddr)) (\<lambda>b0.
        let w1 = f_of_int E (sint b0) in
        bind_res
          (if WaveAdd v < push_bit WAVE_FRACT 1 then
             (let nextAddr = (useAddr + 1) AND (of_nat GUS_RAM_SIZE - 1) in
              bind_res (ram_read ram (unat nextAddr)) (\<lambda>b1.
                let w2 = f_of_int E (sint b1);
                    diff = fsub E w2 w1;
                    max_wave = f_of_int E (2 ^ WAVE_FRACT);
                    scale = fdiv E (f_of_int E (uint (WaveAddr v AND WAVE_FRACT_MASK))) max_wave
                in Inr (fadd E w1 (fmul E diff scale))))
           else Inr w1)
          (\<lambda>w. Inr (fmul E w (f_of_int E (2 ^ (15 - 7)))))))"

text \<open>
  The 16-bit sampler combines the bytes on \<^verbatim>\<open>int\<close>. The low byte of the current sample
  is read unsigned; the low byte of the next sample is cast to \<^verbatim>\<open>int8_t\<close> first, as the
  source has it.
\<close>

definition GetSample16 :: "'f float_env \<Rightarrow> (nat \<Rightarrow> 8 word) \<Rightarrow> GUSChannels \<Rightarrow> 'f res" where
  "GetSample16 E ram v =
     (let base = drop_bit WAVE_FRACT (WaveAddr v);
          holdAddr = base AND 0xc0000;
          useAddr = unat (holdAddr OR push_bit 1 (base AND 0x1ffff)) in
      bind_res (ram_read ram useAddr) (\<lambda>b0.
      bind_res (ram_read ram (useAddr + 1)) (\<lambda>b1.
        let w1 = f_of_int E (uint b0 OR push_bit 8 (sint b1)) in
        if WaveAdd v < push_bit WAVE_FRACT 1 then
          bind_res (ram_read ram (useAddr + 2)) (\<lambda>b2.
          bind_res (ram_read ram (useAddr + 3)) (\<lambda>b3.
            let w2 = f_of_int E (sint b2 OR push_bit 8 (sint b3));
                diff = fsub E w2 w1;
                max_wave = f_of_int E (2 ^ WAVE_FRACT);
                scale = fdiv E (f_of_int E (uint (WaveAddr v AND WAVE_FRACT_MASK))) max_wave
            in Inr (fadd E w1 (fmul E diff scale))))
        else Inr w1)))"

definition get_sample :: "'f float_env \<Rightarrow> (nat \<Rightarrow> 8 word) \<Rightarrow> GUSChannels \<Rightarrow> 'f res" where
  "get_sample E ram v =
     (case getSample v of Sample8 \<Rightarrow> GetSample8 E ram v | Sample16 \<Rightarrow> GetSample16 E ram v)"

subsection \<open>Generating the frames of a voice\<close>

text \<open>
  \<open>generate_frame\<close> is one round of the loop of \<^verbatim>\<open>generateSamples\<close>, writing frame
  \<open>pos\<close> of the accumulator (the pointer \<^verbatim>\<open>stream\<close> after \<open>pos\<close> rounds); the accumulator
  \<^verbatim>\<open>float[GUS_BUFFER_FRAMES][2]\<close> is a list of frames.
\<close>

definition generate_frame ::
  "'f float_env \<Rightarrow> (nat \<Rightarrow> 8 word) \<Rightarrow> nat \<Rightarrow> 'f Frame list \<Rightarrow> 'f Frame \<Rightarrow> GUSChannels \<Rightarrow>
   'f GFGus \<Rightarrow> ('f Frame list \<times> 'f Frame \<times> GUSChannels \<times> 'f GFGus) res" where
  "generate_frame E ram pos stream peak v g =
     bind_res (get_sample E ram v) (\<lambda>s.
     bind_res (vol_scalar_at E (CurrentVolIndex v)) (\<lambda>vs.
     bind_res (pan_scalar_at E (PanPot v)) (\<lambda>pan.
       if pos < length stream then
         let sample = fmul E s vs;
             fr = \<lparr> left = fadd E (left (stream ! pos)) (fmul E sample (fst pan)),
                    right = fadd E (right (stream ! pos)) (fmul E sample (snd pan)) \<rparr>;
             peak' = \<lparr> left = fmax E (left peak) (fabs E (left fr)),
                       right = fmax E (right peak) (fabs E (right fr)) \<rparr>;
             vg1 = WaveUpdate v g;
             vg2 = RampUpdate (fst vg1) (snd vg1)
         in Inr (stream[pos := fr], peak', fst vg2, snd vg2)
       else Inl OutOfBounds)))"

fun generate_loop ::
  "'f float_env \<Rightarrow> (nat \<Rightarrow> 8 word) \<Rightarrow> nat \<Rightarrow> nat \<Rightarrow> 'f Frame list \<Rightarrow> 'f Frame \<Rightarrow> GUSChannels \<Rightarrow>
   'f GFGus \<Rightarrow> ('f Frame list \<times> 'f Frame \<times> GUSChannels \<times> 'f GFGus) res" where
  "generate_loop E ram 0 pos stream peak v g = Inr (stream, peak, v, g)"
| "generate_loop E ram (Suc len) pos stream peak v g =
     bind_res (generate_frame E ram pos stream peak v g)
       (\<lambda>(stream', peak', v', g'). generate_loop E ram len (Suc pos) stream' peak' v' g')"

definition bump_generated_ms :: "GUSChannels \<Rightarrow> GUSChannels" where
  "bump_generated_ms v =
     (case generated_ms v of
        Sample8 \<Rightarrow> v\<lparr> generated_8bit_ms := generated_8bit_ms v + 1 \<rparr>
      | Sample16 \<Rightarrow> v\<lparr> generated_16bit_ms := generated_16bit_ms v + 1 \<rparr>)"

definition generateSamples ::
  "'f float_env \<Rightarrow> (nat \<Rightarrow> 8 word) \<Rightarrow> 'f Frame list \<Rightarrow> 'f Frame \<Rightarrow> nat \<Rightarrow> GUSChannels \<Rightarrow>
   'f GFGus \<Rightarrow> ('f Frame list \<times> 'f Frame \<times> GUSChannels \<times> 'f GFGus) res" where
  "generateSamples E ram stream peak len v g =
     (if RampCtrl v AND WaveCtrl v AND 3 \<noteq> 0 then Inr (stream, peak, v, g)
      else bind_res (generate_loop E ram len 0 stream peak v g)
             (\<lambda>(stream', peak', v', g'). Inr (stream', peak', bump_generated_ms v', g')))"

subsection \<open>The card\<close>

text \<open>
  The globals of the file: \<^verbatim>\<open>myGUS\<close>, the array \<^verbatim>\<open>guschan\<close> of the 32 voices, the pointer
  \<^verbatim>\<open>curchan\<close> into it (\<open>None\<close> is \<^verbatim>\<open>nullptr\<close>, \<open>Some i\<close> is \<^verbatim>\<open>guschan[i]\<close>), the sample
  memory and \<^verbatim>\<open>adlib_commandreg\<close>.
\<close>

record 'f machine =
  myGUS :: "'f GFGus"
  guschan :: "GUSChannels list"
  curchan :: "nat option"
  GUSRam :: "nat \<Rightarrow> 8 word"
  adlib_commandreg :: "8 word"

text \<open>\<^verbatim>\<open>if (curchan) curchan->f(...)\<close>, for a member function that may also change \<^verbatim>\<open>myGUS\<close>.\<close>

definition on_curchan ::
  "(GUSChannels \<Rightarrow> 'f GFGus \<Rightarrow> (GUSChannels \<times> 'f GFGus) res) \<Rightarrow> 'f machine \<Rightarrow> 'f machine res" where
  "on_curchan f s =
     (case curchan s of
        None \<Rightarrow> Inr s
      | Some i \<Rightarrow>
          if i < length (guschan s) then
            bind_res (f (guschan s ! i) (myGUS s))
              (\<lambda>(v, g). Inr (s\<lparr> myGUS := g, guschan := (guschan s)[i := v] \<rparr>))
          else Inl OutOfBounds)"

text \<open>The same for an assignment to a member of the current voice.\<close>

definition set_curchan :: "(GUSChannels \<Rightarrow> GUSChannels) \<Rightarrow> 'f machine \<Rightarrow> 'f machine res" where
  "set_curchan f s = on_curchan (\<lambda>v g. Inr (f v, g)) s"

text \<open>
  \<^verbatim>\<open>GUSReset\<close>. \<^verbatim>\<open>PrintStats\<close> only writes to the log. \<open>reset_channels\<close> is the loop over
  all voices.
\<close>

definition reset_channel ::
  "GUSChannels \<Rightarrow> 'f GFGus \<Rightarrow> (GUSChannels \<times> 'f GFGus) res" where
  "reset_channel v g =
     bind_res (WriteWaveCtrl 0x1 (v\<lparr> CurrentVolIndex := 0 \<rparr>) g) (\<lambda>(v1, g1).
     bind_res (WriteRampCtrl 0x1 v1 g1) (\<lambda>(v2, g2).
       Inr (ClearStats (WritePanPot 0x7 v2), g2)))"

fun reset_channels ::
  "GUSChannels list \<Rightarrow> 'f GFGus \<Rightarrow> (GUSChannels list \<times> 'f GFGus) res" where
  "reset_channels [] g = Inr ([], g)"
| "reset_channels (v # vs) g =
     bind_res (reset_channel v g) (\<lambda>(v', g').
     bind_res (reset_channels vs g') (\<lambda>(vs', g'').
       Inr (v' # vs', g'')))"

definition GUSReset :: "'f float_env \<Rightarrow> 'f machine \<Rightarrow> 'f machine res" where
  "GUSReset E s =
     bind_res
       (if gRegData (myGUS s) AND 0x1 = 0x1 then
          (let g = (myGUS s)
                 \<lparr> IRQStatus := 0,
                   timer0 := (timer0 (myGUS s))
                     \<lparr> raiseirq := False, reached := False, running := False,
                       timer_value := 0xff, delay := fround E (80 / 1000) \<rparr>,
                   timer1 := (timer1 (myGUS s))
                     \<lparr> raiseirq := False, reached := False, running := False,
                       timer_value := 0xff, delay := fround E (320 / 1000) \<rparr>,
                   ChangeIRQDMA := False,
                   mixControl := 0x0b \<rparr>
           in bind_res (reset_channels (guschan s) g) (\<lambda>(vs, g').
                Inr (s\<lparr> adlib_commandreg := 85,
                        guschan := vs,
                        myGUS := g'\<lparr> IRQChan := 0,
                                     peak_amplitude := \<lparr> left = fround E 1, right = fround E 1 \<rparr> \<rparr> \<rparr>)))
        else Inr s)
       (\<lambda>s'. Inr (s'\<lparr> myGUS := (myGUS s')\<lparr> irqenabled := (gRegData (myGUS s') AND 0x4 \<noteq> 0) \<rparr> \<rparr>))"

subsection \<open>Reading a register\<close>

text \<open>
  \<^verbatim>\<open>ExecuteReadRegister\<close> returns a \<^verbatim>\<open>uint16_t\<close> and, for registers 0x41 and 0x8f, changes
  \<^verbatim>\<open>myGUS\<close>.
\<close>

definition cur_voice :: "'f machine \<Rightarrow> GUSChannels option res" where
  "cur_voice s =
     (case curchan s of
        None \<Rightarrow> Inr None
      | Some i \<Rightarrow> if i < length (guschan s) then Inr (Some (guschan s ! i)) else Inl OutOfBounds)"

definition read_curchan ::
  "(GUSChannels \<Rightarrow> 16 word) \<Rightarrow> 16 word \<Rightarrow> 'f machine \<Rightarrow> (16 word \<times> 'f machine) res" where
  "read_curchan f dflt s =
     bind_res (cur_voice s) (\<lambda>cv. Inr (case cv of None \<Rightarrow> dflt | Some v \<Rightarrow> f v, s))"

definition ExecuteReadRegister :: "'f machine \<Rightarrow> (16 word \<times> 'f machine) res" where
  "ExecuteReadRegister s =
     (let g = myGUS s; sel = gRegSelect g in
      if sel = 0x41 then
        (let tmpreg = (DMAControl g AND 0xbf) OR drop_bit 1 (IRQStatus g AND 0x80)
         in Inr (push_bit 8 (ucast tmpreg), s\<lparr> myGUS := g\<lparr> IRQStatus := IRQStatus g AND 0x7f \<rparr> \<rparr>))
      else if sel = 0x42 then Inr (dmaAddr g, s)
      else if sel = 0x45 then Inr (push_bit 8 (ucast (TimerControl g)), s)
      else if sel = 0x49 then
        (let tmpreg = (DMAControl g AND 0xbf) OR drop_bit 1 (IRQStatus g AND 0x80)
         in Inr (push_bit 8 (ucast tmpreg), s))
      else if sel = 0x80 then
        read_curchan (\<lambda>v. push_bit 8 (ucast (ReadWaveCtrl v g))) 0x0300 s
      else if sel = 0x82 then read_curchan (\<lambda>v. ucast (drop_bit 16 (WaveStart v))) 0x0000 s
      else if sel = 0x83 then read_curchan (\<lambda>v. ucast (WaveStart v)) 0x0000 s
      else if sel = 0x89 then
        read_curchan (\<lambda>v. ucast (push_bit 4 (CurrentVolIndex v))) 0x0000 s
      else if sel = 0x8a then read_curchan (\<lambda>v. ucast (drop_bit 16 (WaveAddr v))) 0x0000 s
      else if sel = 0x8b then read_curchan (\<lambda>v. ucast (WaveAddr v)) 0x0000 s
      else if sel = 0x8d then
        read_curchan (\<lambda>v. push_bit 8 (ucast (ReadRampCtrl v g))) 0x0300 s
      else if sel = 0x8f then
        (if 32 \<le> unat (IRQChan g) then Inl BadShift
         else
           let tmpreg0 = IRQChan g OR 0x20;
               mask = (push_bit (unat (IRQChan g)) 1 :: 32 word);
               tmpreg1 = (if RampIRQ g AND mask = 0 then tmpreg0 OR 0x40 else tmpreg0);
               tmpreg = (if WaveIRQ g AND mask = 0 then tmpreg1 OR 0x80 else tmpreg1);
               g1 = g\<lparr> RampIRQ := RampIRQ g AND NOT mask, WaveIRQ := WaveIRQ g AND NOT mask \<rparr>
           in bind_res (CheckVoiceIrq g1) (\<lambda>g2.
                Inr (push_bit 8 (ucast tmpreg), s\<lparr> myGUS := g2 \<rparr>)))
      else Inr (gRegData g, s))"

text \<open>\<^verbatim>\<open>GUS_TimerEvent\<close>; rescheduling the event is a call into the interrupt controller.\<close>

definition GUS_TimerEvent :: "nat \<Rightarrow> 'f machine \<Rightarrow> 'f machine res" where
  "GUS_TimerEvent val s =
     (let g = myGUS s in
      if val = 0 then
        (let t = timer0 g;
             g1 = (if \<not> masked t then g\<lparr> timer0 := t\<lparr> reached := True \<rparr> \<rparr> else g);
             g2 = (if raiseirq t then g1\<lparr> IRQStatus := IRQStatus g1 OR 0x4 \<rparr> else g1)
         in Inr (s\<lparr> myGUS := g2 \<rparr>))
      else if val = 1 then
        (let t = timer1 g;
             g1 = (if \<not> masked t then g\<lparr> timer1 := t\<lparr> reached := True \<rparr> \<rparr> else g);
             g2 = (if raiseirq t then g1\<lparr> IRQStatus := IRQStatus g1 OR 0x8 \<rparr> else g1)
         in Inr (s\<lparr> myGUS := g2 \<rparr>))
      else Inl OutOfBounds)"

subsection \<open>Writing a register\<close>

text \<open>
  The base rate \<^verbatim>\<open>static_cast<uint32_t>(0.5 + 1000000.0 / (1.619695497 * ActiveChannels))\<close>
  is computed on \<^verbatim>\<open>double\<close>; the model computes it on the rationals.
\<close>

definition basefreq_of :: "nat \<Rightarrow> 32 word" where
  "basefreq_of n =
     of_int \<lfloor>(1 / 2 :: rat) + 1000000 / ((1619695497 / 1000000000) * of_nat n)\<rfloor>"

definition clamp :: "nat \<Rightarrow> nat \<Rightarrow> nat \<Rightarrow> nat" where
  "clamp n lo hi = (if n < lo then lo else if hi < n then hi else n)"

text \<open>
  Register 0x0E: the loop \<^verbatim>\<open>for (i = 0; i < ActiveChannels; i++) guschan[i]->UpdateWaveRamp()\<close>
  runs over the first \<^verbatim>\<open>ActiveChannels\<close> voices.
\<close>

definition set_active_channels :: "'f machine \<Rightarrow> 'f machine res" where
  "set_active_channels s =
     (let g0 = (myGUS s)\<lparr> gRegSelect := ucast (drop_bit 8 (gRegData (myGUS s))) \<rparr>;
          requested = clamp (1 + unat (drop_bit 8 (gRegData g0) AND 63))
                        GUS_MIN_CHANNELS GUS_MAX_CHANNELS;
          g = (if requested \<noteq> unat (ActiveChannels g0)
               then g0\<lparr> ActiveChannels := of_nat requested,
                        ActiveMask := drop_bit (32 - requested) 0xffffffff,
                        basefreq := basefreq_of requested \<rparr>
               else g0);
          n = unat (ActiveChannels g)
      in if n \<le> length (guschan s)
         then Inr (s\<lparr> myGUS := g,
                      guschan := map UpdateWaveRamp (take n (guschan s)) @ drop n (guschan s) \<rparr>)
         else Inl OutOfBounds)"

definition ExecuteGlobRegister :: "'f float_env \<Rightarrow> 'f machine \<Rightarrow> 'f machine res" where
  "ExecuteGlobRegister E s =
     (let g = myGUS s; sel = gRegSelect g; d = gRegData g; hi = (ucast (drop_bit 8 d) :: 8 word) in
      if sel = 0x0 then on_curchan (WriteWaveCtrl hi) s
      else if sel = 0x1 then set_curchan (WriteWaveFreq d) s
      else if sel = 0x2 then
        set_curchan (\<lambda>v. v\<lparr> WaveStart :=
          (WaveStart v AND WAVE_MSWMASK) OR push_bit 16 (ucast (d AND 0x1fff)) \<rparr>) s
      else if sel = 0x3 then
        set_curchan (\<lambda>v. v\<lparr> WaveStart := (WaveStart v AND WAVE_LSWMASK) OR ucast d \<rparr>) s
      else if sel = 0x4 then
        set_curchan (\<lambda>v. v\<lparr> WaveEnd :=
          (WaveEnd v AND WAVE_MSWMASK) OR push_bit 16 (ucast (d AND 0x1fff)) \<rparr>) s
      else if sel = 0x5 then
        set_curchan (\<lambda>v. v\<lparr> WaveEnd := (WaveEnd v AND WAVE_LSWMASK) OR ucast d \<rparr>) s
      else if sel = 0x6 then set_curchan (WriteRampRate hi) s
      else if sel = 0x7 then set_curchan (\<lambda>v. v\<lparr> StartVolIndex := push_bit 4 (ucast hi) \<rparr>) s
      else if sel = 0x8 then set_curchan (\<lambda>v. v\<lparr> EndVolIndex := push_bit 4 (ucast hi) \<rparr>) s
      else if sel = 0x9 then
        set_curchan (\<lambda>v. v\<lparr> CurrentVolIndex := ucast (drop_bit 4 d) \<rparr>) s
      else if sel = 0xA then
        set_curchan (\<lambda>v. v\<lparr> WaveAddr :=
          (WaveAddr v AND WAVE_MSWMASK) OR push_bit 16 (ucast (d AND 0x1fff)) \<rparr>) s
      else if sel = 0xB then
        set_curchan (\<lambda>v. v\<lparr> WaveAddr := (WaveAddr v AND WAVE_LSWMASK) OR ucast d \<rparr>) s
      else if sel = 0xC then set_curchan (WritePanPot hi) s
      else if sel = 0xD then on_curchan (WriteRampCtrl hi) s
      else if sel = 0xE then set_active_channels s
      else if sel = 0x10 then Inr s
      else if sel = 0x41 then Inr (s\<lparr> myGUS := g\<lparr> DMAControl := hi \<rparr> \<rparr>)
      else if sel = 0x42 then Inr (s\<lparr> myGUS := g\<lparr> dmaAddr := d \<rparr> \<rparr>)
      else if sel = 0x43 then
        Inr (s\<lparr> myGUS := g\<lparr> gDramAddr := (0xff0000 AND gDramAddr g) OR ucast d \<rparr> \<rparr>)
      else if sel = 0x44 then
        Inr (s\<lparr> myGUS := g\<lparr> gDramAddr := (0xffff AND gDramAddr g) OR push_bit 16 (ucast hi) \<rparr> \<rparr>)
      else if sel = 0x45 then
        (let g1 = g\<lparr> TimerControl := hi \<rparr>;
             g2 = g1\<lparr> timer0 := (timer0 g1)\<lparr> raiseirq := (hi AND 0x04 \<noteq> 0) \<rparr> \<rparr>;
             g3 = (if \<not> raiseirq (timer0 g2) then g2\<lparr> IRQStatus := IRQStatus g2 AND NOT 0x04 \<rparr>
                   else g2);
             g4 = g3\<lparr> timer1 := (timer1 g3)\<lparr> raiseirq := (hi AND 0x08 \<noteq> 0) \<rparr> \<rparr>;
             g5 = (if \<not> raiseirq (timer1 g4) then g4\<lparr> IRQStatus := IRQStatus g4 AND NOT 0x08 \<rparr>
                   else g4)
         in Inr (s\<lparr> myGUS := g5 \<rparr>))
      else if sel = 0x46 then
        Inr (s\<lparr> myGUS := g\<lparr> timer0 := (timer0 g)
               \<lparr> timer_value := hi,
                 delay := fmul E (f_of_int E (0x100 - uint hi)) (fround E (80 / 1000)) \<rparr> \<rparr> \<rparr>)
      else if sel = 0x47 then
        Inr (s\<lparr> myGUS := g\<lparr> timer1 := (timer1 g)
               \<lparr> timer_value := hi,
                 delay := fmul E (f_of_int E (0x100 - uint hi)) (fround E (320 / 1000)) \<rparr> \<rparr> \<rparr>)
      else if sel = 0x49 then Inr (s\<lparr> myGUS := g\<lparr> SampControl := hi \<rparr> \<rparr>)
      else if sel = 0x4c then GUSReset E s
      else Inr s)"

subsection \<open>The port handlers\<close>

text \<open>
  \<^verbatim>\<open>Bitu\<close> values (ports, port data, results of a read) are natural numbers; a cast to an
  unsigned type of width w is \<open>of_nat\<close> into \<open>w word\<close>.
\<close>

definition read_gus :: "nat \<Rightarrow> nat \<Rightarrow> 'f machine \<Rightarrow> (nat \<times> 'f machine) res" where
  "read_gus port iolen s =
     (let g = myGUS s; off = port - portbase g in
      if off = 0x206 then Inr (unat (IRQStatus g), s)
      else if off = 0x208 then
        (let t0 = (0 :: 8 word);
             t1 = (if reached (timer0 g) then t0 OR push_bit 6 1 else t0);
             t2 = (if reached (timer1 g) then t1 OR push_bit 5 1 else t1);
             t3 = (if t2 AND 0x60 \<noteq> 0 then t2 OR push_bit 7 1 else t2);
             t4 = (if IRQStatus g AND 0x04 \<noteq> 0 then t3 OR push_bit 2 1 else t3);
             t5 = (if IRQStatus g AND 0x08 \<noteq> 0 then t4 OR push_bit 1 1 else t4)
         in Inr (unat t5, s))
      else if off = 0x20a then Inr (unat (adlib_commandreg s), s)
      else if off = 0x302 then Inr (unat (ucast (gCurChannel g) :: 8 word), s)
      else if off = 0x303 then Inr (unat (gRegSelect g), s)
      else if off = 0x304 then
        bind_res (ExecuteReadRegister s) (\<lambda>(r, s').
          if iolen = 2 then Inr (unat (r AND 0xffff), s') else Inr (unat (r AND 0xff), s'))
      else if off = 0x305 then
        bind_res (ExecuteReadRegister s) (\<lambda>(r, s'). Inr (unat (drop_bit 8 r), s'))
      else if off = 0x307 then
        (if unat (gDramAddr g) < GUS_RAM_SIZE then Inr (unat (GUSRam s (unat (gDramAddr g))), s)
         else Inr (0, s))
      else Inr (0xff, s))"

definition irqtable :: "8 word list" where
  "irqtable = [0, 2, 5, 3, 7, 11, 12, 15]"

definition dmatable :: "8 word list" where
  "dmatable = [0, 1, 3, 5, 6, 7, 0, 0]"

definition write_gus :: "'f float_env \<Rightarrow> nat \<Rightarrow> nat \<Rightarrow> nat \<Rightarrow> 'f machine \<Rightarrow> 'f machine res" where
  "write_gus E port val iolen s =
     (let g = myGUS s; off = port - portbase g in
      if off = 0x200 then
        Inr (s\<lparr> myGUS := g\<lparr> mixControl := of_nat val, ChangeIRQDMA := True \<rparr> \<rparr>)
      else if off = 0x208 then Inr (s\<lparr> adlib_commandreg := of_nat val \<rparr>)
      else if off = 0x209 then
        (if val AND 0x80 \<noteq> 0 then
           Inr (s\<lparr> myGUS := g\<lparr> timer0 := (timer0 g)\<lparr> reached := False \<rparr>,
                                timer1 := (timer1 g)\<lparr> reached := False \<rparr> \<rparr> \<rparr>)
         else
           Inr (s\<lparr> myGUS := g
                  \<lparr> timer0 := (timer0 g)\<lparr> masked := (val AND 0x40 \<noteq> 0),
                                           running := (val AND 0x1 \<noteq> 0) \<rparr>,
                    timer1 := (timer1 g)\<lparr> masked := (val AND 0x20 \<noteq> 0),
                                           running := (val AND 0x2 \<noteq> 0) \<rparr> \<rparr> \<rparr>))
      else if off = 0x20b then
        (if \<not> ChangeIRQDMA g then Inr s
         else
           let g1 = g\<lparr> ChangeIRQDMA := False \<rparr> in
           if mixControl g1 AND 0x40 \<noteq> 0 then
             Inr (s\<lparr> myGUS := (if irqtable ! (val AND 0x7) \<noteq> 0
                                then g1\<lparr> irq1 := irqtable ! (val AND 0x7) \<rparr> else g1) \<rparr>)
           else
             Inr (s\<lparr> myGUS := (if dmatable ! (val AND 0x7) \<noteq> 0
                                then g1\<lparr> dma1 := dmatable ! (val AND 0x7) \<rparr> else g1) \<rparr>))
      else if off = 0x302 then
        Inr (s\<lparr> myGUS := g\<lparr> gCurChannel := of_nat (val AND 31) \<rparr>,
               curchan := Some (val AND 31) \<rparr>)
      else if off = 0x303 then
        Inr (s\<lparr> myGUS := g\<lparr> gRegSelect := of_nat val, gRegData := 0 \<rparr> \<rparr>)
      else if off = 0x304 then
        (if iolen = 2 then ExecuteGlobRegister E (s\<lparr> myGUS := g\<lparr> gRegData := of_nat val \<rparr> \<rparr>)
         else Inr (s\<lparr> myGUS := g\<lparr> gRegData := of_nat val \<rparr> \<rparr>))
      else if off = 0x305 then
        ExecuteGlobRegister E
          (s\<lparr> myGUS := g\<lparr> gRegData := (0x00ff AND gRegData g) OR of_nat (push_bit 8 val) \<rparr> \<rparr>)
      else if off = 0x307 then
        (if unat (gDramAddr g) < GUS_RAM_SIZE
         then Inr (s\<lparr> GUSRam := (GUSRam s)(unat (gDramAddr g) := of_nat val) \<rparr>)
         else Inr s)
      else Inr s)"

subsection \<open>The soft limiter and the mixer callback\<close>

text \<open>The conversion of a block of frames with \<^verbatim>\<open>static_cast<int16_t>\<close>.\<close>

fun to_i16_frames :: "'f float_env \<Rightarrow> 'f Frame list \<Rightarrow> (16 word \<times> 16 word) list res" where
  "to_i16_frames E [] = Inr []"
| "to_i16_frames E (fr # frs) =
     (case (f_to_i16 E (left fr), f_to_i16 E (right fr)) of
        (Some l, Some r) \<Rightarrow> bind_res (to_i16_frames E frs) (\<lambda>out. Inr ((l, r) # out))
      | _ \<Rightarrow> Inl BadConversion)"

definition max_allowed :: "'f float_env \<Rightarrow> 'f" where
  "max_allowed E = f_of_int E (32767 - 1)"

definition release_amount :: "'f float_env \<Rightarrow> 'f" where
  "release_amount E =
     fmul E (max_allowed E) (fsub E (fround E GUS_VOLUME_SCALE_DIV) (fround E 1))"

text \<open>
  \<^verbatim>\<open>SoftLimit\<close> returns \<^verbatim>\<open>false\<close> and leaves \<^verbatim>\<open>out\<close> alone (\<open>None\<close>), or fills the first
  \<^verbatim>\<open>len\<close> frames of \<^verbatim>\<open>out\<close> and returns \<^verbatim>\<open>true\<close> (\<open>Some\<close> of these frames).
\<close>

definition SoftLimit ::
  "'f float_env \<Rightarrow> 'f Frame list \<Rightarrow> nat \<Rightarrow> 'f GFGus \<Rightarrow>
   ((16 word \<times> 16 word) list option \<times> 'f GFGus) res" where
  "SoftLimit E inp len g =
     (let peak = peak_amplitude g in
      if fless E (left peak) (max_allowed E) \<and> fless E (right peak) (max_allowed E)
      then Inr (None, g)
      else
        let ratio = \<lparr> left = fmin E (fround E 1) (fdiv E (max_allowed E) (left peak)),
                      right = fmin E (fround E 1) (fdiv E (max_allowed E) (right peak)) \<rparr>
        in if len \<le> length inp then
             bind_res
               (to_i16_frames E
                  (map (\<lambda>fr. \<lparr> left = fmul E (left fr) (left ratio),
                               right = fmul E (right fr) (right ratio) \<rparr>) (take len inp)))
               (\<lambda>out.
                  let p1 = (if fless E (max_allowed E) (left peak)
                            then peak\<lparr> left := fsub E (left peak) (release_amount E) \<rparr>
                            else peak);
                      p2 = (if fless E (max_allowed E) (right p1)
                            then p1\<lparr> right := fsub E (right p1) (release_amount E) \<rparr>
                            else p1)
                  in Inr (Some out, g\<lparr> peak_amplitude := p2 \<rparr>))
           else Inl OutOfBounds)"

text \<open>
  The loop of \<^verbatim>\<open>GUS_CallBack\<close> over the active voices. Each voice adds to the accumulator
  and updates \<^verbatim>\<open>myGUS.peak_amplitude\<close>, which it is handed by reference.
\<close>

fun mix_voices ::
  "'f float_env \<Rightarrow> (nat \<Rightarrow> 8 word) \<Rightarrow> nat \<Rightarrow> GUSChannels list \<Rightarrow> 'f Frame list \<Rightarrow> 'f GFGus \<Rightarrow>
   (GUSChannels list \<times> 'f Frame list \<times> 'f GFGus) res" where
  "mix_voices E ram len [] acc g = Inr ([], acc, g)"
| "mix_voices E ram len (v # vs) acc g =
     bind_res (generateSamples E ram acc (peak_amplitude g) len v g) (\<lambda>(acc', peak', v', g').
     bind_res (mix_voices E ram len vs acc' (g'\<lparr> peak_amplitude := peak' \<rparr>)) (\<lambda>(vs', acc'', g'').
       Inr (v' # vs', acc'', g'')))"

text \<open>
  The accumulator after the voices of a block:
  \<^verbatim>\<open>float accumulator[GUS_BUFFER_FRAMES][2] = {{0}}\<close> and the loop over the active voices.
\<close>

definition accumulate ::
  "'f float_env \<Rightarrow> nat \<Rightarrow> 'f machine \<Rightarrow> (GUSChannels list \<times> 'f Frame list \<times> 'f GFGus) res" where
  "accumulate E len s =
     (let n = unat (ActiveChannels (myGUS s)) in
      if n \<le> length (guschan s) then
        bind_res
          (mix_voices E (GUSRam s) len (take n (guschan s))
             (replicate GUS_BUFFER_FRAMES \<lparr> left = fround E 0, right = fround E 0 \<rparr>) (myGUS s))
          (\<lambda>(vs, acc, g). Inr (vs @ drop n (guschan s), acc, g))
      else Inl OutOfBounds)"

text \<open>
  The rest of the callback: the limiter, the plain conversion when the limiter returned
  \<^verbatim>\<open>false\<close>, and \<^verbatim>\<open>CheckVoiceIrq\<close>. The result is the block handed to \<^verbatim>\<open>AddSamples_s16\<close>.
\<close>

definition emit_block ::
  "'f float_env \<Rightarrow> 'f Frame list \<Rightarrow> nat \<Rightarrow> 'f GFGus \<Rightarrow> ((16 word \<times> 16 word) list \<times> 'f GFGus) res" where
  "emit_block E acc len g =
     bind_res (SoftLimit E acc len g) (\<lambda>(limited, g1).
     bind_res
       (case limited of
          Some scaled \<Rightarrow> Inr scaled
        | None \<Rightarrow> if len \<le> length acc then to_i16_frames E (take len acc) else Inl OutOfBounds)
       (\<lambda>scaled. bind_res (CheckVoiceIrq g1) (\<lambda>g2. Inr (scaled, g2))))"

definition GUS_CallBack ::
  "'f float_env \<Rightarrow> nat \<Rightarrow> 'f machine \<Rightarrow> ((16 word \<times> 16 word) list \<times> 'f machine) res" where
  "GUS_CallBack E len s =
     bind_res (accumulate E len s) (\<lambda>(vs, acc, g).
     bind_res (emit_block E acc len g) (\<lambda>(scaled, g').
       Inr (scaled, s\<lparr> myGUS := g', guschan := vs \<rparr>)))"

subsection \<open>Construction and the runs of the card\<close>

text \<open>
  The constructor of \<^verbatim>\<open>class GUS\<close> for an enabled card: the default member initialisers of
  \<^verbatim>\<open>myGUS\<close>, the configured port base, DMA channel and IRQ, the 32 voices, and a reset.
\<close>

definition default_timer :: "'f float_env \<Rightarrow> 'f GusTimer" where
  "default_timer E =
     \<lparr> timer_value = 0, reached = False, raiseirq = False, masked = False, running = False,
       delay = fround E 0 \<rparr>"

definition default_GFGus :: "'f float_env \<Rightarrow> 'f GFGus" where
  "default_GFGus E =
     \<lparr> gRegSelect = 0, gRegData = 0, gDramAddr = 0, gCurChannel = 0, DMAControl = 0,
       dmaAddr = 0, TimerControl = 0, SampControl = 0, mixControl = 0, ActiveChannels = 0,
       basefreq = 0, timer0 = default_timer E, timer1 = default_timer E, rate = 0,
       peak_amplitude = \<lparr> left = fround E 1, right = fround E 1 \<rparr>, portbase = 0,
       dma1 = 0, dma2 = 0, irq1 = 0, irq2 = 0, irqenabled = False, ChangeIRQDMA = False,
       IRQStatus = 0, ActiveMask = 0, IRQChan = 0, RampIRQ = 0, WaveIRQ = 0 \<rparr>"

definition GUS_init :: "'f float_env \<Rightarrow> nat \<Rightarrow> 8 word \<Rightarrow> 8 word \<Rightarrow> 'f machine res" where
  "GUS_init E gusbase dma_val irq_val =
     bind_res
       (GUSReset E
          \<lparr> myGUS = (default_GFGus E)
               \<lparr> portbase := gusbase - 0x200, dma1 := dma_val, dma2 := dma_val,
                 irq1 := irq_val, irq2 := irq_val, gRegData := 0x1 \<rparr>,
            guschan = map new_GUSChannels [0..<GUS_MAX_CHANNELS],
            curchan = None,
            GUSRam = (\<lambda>a. 0),
            adlib_commandreg = 0 \<rparr>)
       (\<lambda>s. Inr (s\<lparr> myGUS := (myGUS s)\<lparr> gRegData := 0x0 \<rparr> \<rparr>))"

text \<open>
  What happens to a constructed card: the host reads or writes one of its ports, the
  mixer asks for a block of at most \<open>GUS_BUFFER_FRAMES\<close> frames, or a timer expires.
\<close>

datatype action = Write nat nat nat | Read nat nat | Mix nat | Timer nat

definition step :: "'f float_env \<Rightarrow> action \<Rightarrow> 'f machine \<Rightarrow> 'f machine res" where
  "step E a s =
     (case a of
        Write port val iolen \<Rightarrow> write_gus E port val iolen s
      | Read port iolen \<Rightarrow> bind_res (read_gus port iolen s) (\<lambda>(r, s'). Inr s')
      | Mix len \<Rightarrow> bind_res (GUS_CallBack E len s) (\<lambda>(out, s'). Inr s')
      | Timer val \<Rightarrow> GUS_TimerEvent val s)"

fun run :: "'f float_env \<Rightarrow> action list \<Rightarrow> 'f machine \<Rightarrow> 'f machine res" where
  "run E [] s = Inr s"
| "run E (a # as) s = bind_res (step E a s) (run E as)"

inductive reachable :: "'f float_env \<Rightarrow> 'f machine \<Rightarrow> bool" for E :: "'f float_env" where
  reachable_init: "GUS_init E gusbase dma_val irq_val = Inr s \<Longrightarrow> reachable E s"
| reachable_step: "reachable E s \<Longrightarrow> step E a s = Inr s' \<Longrightarrow> reachable E s'"

subsection \<open>An arithmetic without rounding\<close>

text \<open>
  For concrete runs: the operations on the rationals, exact. They agree with IEEE single
  precision wherever the operands and the result are representable (an integer below
  \<open>2 ^ 24\<close> in absolute value, or such an integer divided by a power of two), which is
  the case for every value of the concrete runs below. The volume table is the table of
  \<^verbatim>\<open>PopulateVolScalars\<close> without rounding (entry 4095 is 1 and entry 0 is 0 in the C++ too).
  Of the pan table only position 0 is used below, where the C++ has \<open>cos 0 = 1\<close> and
  \<open>sin 0 = 0\<close> exactly; the other entries are the five decimals that the comment above
  \<^verbatim>\<open>PopulatePanScalars\<close> prints.
\<close>

definition exact_to_i16 :: "rat \<Rightarrow> 16 word option" where
  "exact_to_i16 q =
     (let t = (if q < 0 then - \<lfloor>- q\<rfloor> else \<lfloor>q\<rfloor>)
      in if - 32768 \<le> t \<and> t \<le> 32767 then Some (of_int t) else None)"

definition exact_pan :: "(rat \<times> rat) list" where
  "exact_pan =
     [(1, 0), (99371 / 100000, 11196 / 100000), (97493 / 100000, 22252 / 100000),
      (94388 / 100000, 33028 / 100000), (90097 / 100000, 43388 / 100000),
      (84672 / 100000, 53203 / 100000), (78183 / 100000, 62349 / 100000),
      (70711 / 100000, 70711 / 100000), (63439 / 100000, 77301 / 100000),
      (55557 / 100000, 83147 / 100000), (47140 / 100000, 88192 / 100000),
      (38268 / 100000, 92388 / 100000), (29028 / 100000, 95694 / 100000),
      (19509 / 100000, 98079 / 100000), (9802 / 100000, 99518 / 100000), (0, 1)]"

definition exact_env :: "rat float_env" where
  "exact_env =
     \<lparr> fround = (\<lambda>q. q), fadd = (+), fsub = (-), fmul = (*), fdiv = (/), fless = (<),
       fabs = abs, f_to_i16 = exact_to_i16,
       vol_scalars = (\<lambda>i. if i = 0 then 0 else (1 / GUS_VOLUME_SCALE_DIV) ^ (4095 - i)),
       pan_scalars = (\<lambda>p. exact_pan ! p) \<rparr>"

subsection \<open>Reference states and invariants\<close>

text \<open>The card as the constructor leaves it (\<open>GUS_init_fresh\<close> below).\<close>

definition fresh_card :: "'f float_env \<Rightarrow> nat \<Rightarrow> 8 word \<Rightarrow> 8 word \<Rightarrow> 'f machine" where
  "fresh_card E gusbase dma_val irq_val =
     \<lparr> myGUS = (default_GFGus E)
         \<lparr> portbase := gusbase - 0x200, dma1 := dma_val, dma2 := dma_val,
           irq1 := irq_val, irq2 := irq_val, mixControl := 0x0b,
           timer0 := \<lparr> timer_value = 0xff, reached = False, raiseirq = False,
                       masked = False, running = False, delay = fround E (80 / 1000) \<rparr>,
           timer1 := \<lparr> timer_value = 0xff, reached = False, raiseirq = False,
                       masked = False, running = False, delay = fround E (320 / 1000) \<rparr> \<rparr>,
       guschan = map (\<lambda>n. (new_GUSChannels n)\<lparr> WaveCtrl := 1, RampCtrl := 1 \<rparr>)
                   [0..<GUS_MAX_CHANNELS],
       curchan = None,
       GUSRam = (\<lambda>a. 0),
       adlib_commandreg = 85 \<rparr>"

text \<open>
  The active-voice count and its mask agree: the count lies between 14 and 32 with the
  mask \<^verbatim>\<open>0xffffffff >> (32 - count)\<close>, or (where \<open>z\<close> allows it) the count is 0 with an
  empty mask, as constructed.
\<close>

definition active_ok :: "bool \<Rightarrow> 'f GFGus \<Rightarrow> bool" where
  "active_ok z g \<longleftrightarrow>
     (z \<and> ActiveChannels g = 0 \<and> ActiveMask g = 0) \<or>
     (14 \<le> unat (ActiveChannels g) \<and> unat (ActiveChannels g) \<le> 32 \<and>
      ActiveMask g = drop_bit (32 - unat (ActiveChannels g)) 0xffffffff)"

definition gus_wf :: "bool \<Rightarrow> 'f GFGus \<Rightarrow> bool" where
  "gus_wf z g \<longleftrightarrow> active_ok z g \<and> unat (IRQChan g) < 32"

text \<open>
  What the card keeps true of its voices: the interrupt mask of voice \<open>i\<close> is
  \<open>1 << i\<close>, and bit 7 of the two stored control bytes is clear. \<open>keeps_voice v v'\<close>
  says that a change of a voice from \<open>v\<close> to \<open>v'\<close> respects this.
\<close>

definition ctrl_ok :: "GUSChannels \<Rightarrow> bool" where
  "ctrl_ok v \<longleftrightarrow> \<not> bit (WaveCtrl v) 7 \<and> \<not> bit (RampCtrl v) 7"

definition voice_ok :: "nat \<Rightarrow> GUSChannels \<Rightarrow> bool" where
  "voice_ok i v \<longleftrightarrow> irqmask v = push_bit i 1 \<and> ctrl_ok v"

definition keeps_voice :: "GUSChannels \<Rightarrow> GUSChannels \<Rightarrow> bool" where
  "keeps_voice v v' \<longleftrightarrow> irqmask v' = irqmask v \<and> (ctrl_ok v \<longrightarrow> ctrl_ok v')"

definition voices_ok :: "GUSChannels list \<Rightarrow> bool" where
  "voices_ok vs \<longleftrightarrow> length vs = 32 \<and> (\<forall>i < 32. voice_ok i (vs ! i))"

definition card_ok :: "bool \<Rightarrow> 'f machine \<Rightarrow> bool" where
  "card_ok z s \<longleftrightarrow> gus_wf z (myGUS s) \<and> voices_ok (guschan s)"

text \<open>The voices with a pending interrupt that \<^verbatim>\<open>CheckVoiceIrq\<close> looks at.\<close>

definition pending :: "'f GFGus \<Rightarrow> 32 word" where
  "pending g = (RampIRQ g OR WaveIRQ g) AND ActiveMask g"

text \<open>
  The reporting cursor is settled: nothing is pending and the two status bits are clear,
  or \<^verbatim>\<open>IRQChan\<close> is a pending voice.
\<close>

definition cursor_ok :: "'f GFGus \<Rightarrow> bool" where
  "cursor_ok g \<longleftrightarrow>
     (pending g = 0 \<and> IRQStatus g AND 0x60 = 0) \<or> bit (pending g) (unat (IRQChan g))"

definition pending_count :: "'f GFGus \<Rightarrow> nat" where
  "pending_count g = card {i. bit (pending g) i}"

subsection \<open>Concrete runs\<close>

text \<open>
  A card at port 0x240 with DMA channel 3 and IRQ 5, computing without rounding, after
  the host has performed the given actions. Port 0x342 selects the voice, port 0x343 the
  register; ports 0x344 and 0x345 are the data ports and port 0x347 pokes the sample
  memory.
\<close>

definition card_at :: "action list \<Rightarrow> rat machine" where
  "card_at as = projr (run exact_env as (fresh_card exact_env 0x240 3 5))"

text \<open>Voice 0 selected and 14 voices activated (register 0x0E, data 13).\<close>

definition setup_14 :: "action list" where
  "setup_14 = [Write 0x342 0 1, Write 0x343 0x0E 1, Write 0x345 13 1]"

text \<open>
  Then the wave control of voice 0 is written with 0xA3 (stopped, with the manual
  interrupt pattern), and the interrupt status register 0x8f is selected.
\<close>

definition irq_setup :: "action list" where
  "irq_setup = setup_14 @ [Write 0x343 0x00 1, Write 0x345 0xA3 1, Write 0x343 0x8f 1]"

text \<open>
  A full-scale negative sample played hard left at full volume: the byte 0x80 poked at
  address 0, voice 0 with volume index 4095 (register 0x09), pan position 0 (register
  0x0C), frequency 0x400, that is one byte per frame (register 0x01), and wave control 0,
  playing (register 0x00).
\<close>

definition loud_setup :: "action list" where
  "loud_setup = setup_14 @
     [Write 0x347 0x80 1,
      Write 0x343 0x09 1, Write 0x344 0xFFF0 2,
      Write 0x343 0x0C 1, Write 0x345 0x00 1,
      Write 0x343 0x01 1, Write 0x344 0x0400 2,
      Write 0x343 0x00 1, Write 0x345 0x00 1]"

text \<open>
  A voice that runs past the end of the sample memory: the current address of voice 0
  set to the last byte (registers 0x0A and 0x0B), frequency 2, that is 1/512 byte per
  frame (register 0x01; the division by 2 is exact), ramp control 0x07 (stopped, with the
  rollover bit 2) and wave control 0, playing forward without a loop; then one frame is
  mixed.
\<close>

definition past_end_writes :: "action list" where
  "past_end_writes = setup_14 @
     [Write 0x343 0x0A 1, Write 0x344 0x1FFF 2,
      Write 0x343 0x0B 1, Write 0x344 0xFFFF 2,
      Write 0x343 0x01 1, Write 0x344 0x0002 2,
      Write 0x343 0x0D 1, Write 0x345 0x07 1,
      Write 0x343 0x00 1, Write 0x345 0x00 1]"

definition past_end_setup :: "action list" where
  "past_end_setup = past_end_writes @ [Mix 1]"

text \<open>
  The 8-bit sampler in the words of the specification, on exact numbers: with
  \<open>base = wave_addr >> 9\<close> and \<open>s0 = signed_i8(memory[base mod 2^20])\<close>, the value
  \<open>(s0 + (s1 - s0) * frac / 2^9) * 2^8\<close> when \<open>wave_add < 2^9\<close>, where
  \<open>s1 = signed_i8(memory[(base + 1) mod 2^20])\<close> and \<open>frac = wave_addr mod 2^9\<close>, and
  \<open>s0 * 2^8\<close> otherwise. It is compared with \<open>GetSample8\<close> below.
\<close>

definition spec_sampler8 :: "(nat \<Rightarrow> 8 word) \<Rightarrow> GUSChannels \<Rightarrow> rat" where
  "spec_sampler8 ram v =
     (let base = unat (WaveAddr v) div 2 ^ 9;
          s0 = of_int (sint (ram (base mod 2 ^ 20)))
      in if unat (WaveAdd v) < 2 ^ 9 then
           let s1 = of_int (sint (ram ((base + 1) mod 2 ^ 20)));
               frac = of_nat (unat (WaveAddr v) mod 2 ^ 9)
           in (s0 + (s1 - s0) * frac / 2 ^ 9) * 2 ^ 8
         else s0 * 2 ^ 8)"

text \<open>
  A voice as the reset leaves it (wave stopped) whose ramp the host has started by
  writing 0 to the ramp control, at volume index 4095 and pan position 0, reading a
  memory that holds the byte 0x40 everywhere.
\<close>

definition ramping_voice :: GUSChannels where
  "ramping_voice =
     (new_GUSChannels 0)\<lparr> WaveCtrl := 1, RampCtrl := 0, CurrentVolIndex := 4095, PanPot := 0 \<rparr>"

text \<open>A voice at the end of a bidirectional loop: wave control 0x18, one step before its end.\<close>

definition looping_voice :: GUSChannels where
  "looping_voice =
     (new_GUSChannels 0)\<lparr> WaveCtrl := 0x18, WaveAdd := 1, WaveEnd := 0, WaveAddr := 0 \<rparr>"

section \<open>Properties\<close>

subsection \<open>Basic facts\<close>

lemma bind_res_Inr [simp]: "bind_res (Inr x) f = f x"
  by (simp add: bind_res_def)

lemma bind_res_Inl [simp]: "bind_res (Inl e) f = Inl e"
  by (simp add: bind_res_def)

lemma bind_res_eq_Inr: "bind_res m f = Inr y \<longleftrightarrow> (\<exists>x. m = Inr x \<and> f x = Inr y)"
  by (cases m) simp_all

lemma unat_8_less: "unat (w :: 8 word) < 256"
  using unsigned_less [of w, where 'a = nat] by simp





lemma and_ffff [simp]: "(f :: 16 word) AND 0xffff = f"
proof -
  have "(0xffff :: 16 word) = - 1" by simp
  then show ?thesis by (simp only: word_and_max)
qed

subsection \<open>The ramp rate\<close>

lemma drop6_cases: "unat (drop_bit 6 (val :: 8 word)) < 4"
  using unat_8_less [of val] by (simp add: drop_bit_eq_div unat_div)

text \<open>
  C6, as the claim states it, fails: for the rate 0xFF the scale is 63 and
  \<open>1 << (3 * (0xFF >> 6))\<close> is 512, so the claimed increment is \<open>ceil(63 / 512) = 1\<close>; the
  code keeps the divider in eight bits, where 512 is 0, and stores the increment 0.
\<close>

theorem C6_counterexample:
  "IncrVolIndex (WriteRampRate 0xFF (new_GUSChannels 0)) = 0 \<and>
   unat (0xFF AND 0x3F :: 8 word) = 63 \<and>
   (2 :: nat) ^ (3 * unat (drop_bit 6 (0xFF :: 8 word))) = 512 \<and>
   ceil_udivide 63 512 = 1"
proof -
  have "ceil_udivide 63 512 = 1" by code_simp
  moreover have "unat (drop_bit 6 (0xFF :: 8 word)) = 3" by simp
  ultimately show ?thesis by (simp add: WriteRampRate_def)
qed

text \<open>
  C6, amended: for every 8-bit ramp rate written to a voice, with
  \<open>scale = rate AND 0x3F\<close> and \<open>divider = (1 << (3 * (rate >> 6))) mod 256\<close> (the divider
  is an 8-bit value, so it is 1, 8, 64 or, for \<open>rate >> 6 = 3\<close>, 0), the stored ramp
  increment is 0 when \<open>scale = 0\<close> or \<open>divider = 0\<close> and \<open>ceil(scale / divider)\<close> otherwise.
\<close>

theorem C6_ramp_increment:
  "IncrVolIndex (WriteRampRate val v) =
     (let scale = unat (val AND 0x3F);
          divider = 2 ^ (3 * unat (drop_bit 6 val)) mod 256
      in if scale = 0 \<or> divider = 0 then 0 else of_nat (ceil_udivide scale divider))"
proof -
  consider "unat (drop_bit 6 val) = 0" | "unat (drop_bit 6 val) = 1"
    | "unat (drop_bit 6 val) = 2" | "unat (drop_bit 6 val) = 3"
    using drop6_cases [of val] by linarith
  then show ?thesis
    by cases (simp_all add: WriteRampRate_def Let_def unat_eq_0)
qed

subsection \<open>A disabled voice\<close>

lemma generateSamples_disabled:
  "RampCtrl v AND WaveCtrl v AND 3 \<noteq> 0 \<Longrightarrow>
   generateSamples E ram stream peak len v g = Inr (stream, peak, v, g)"
  by (simp add: generateSamples_def)

text \<open>
  C7: a voice whose \<open>ramp_ctrl\<close> and \<open>wave_ctrl\<close> both have their two lowest bits set
  generates nothing, for any number of frames: \<^verbatim>\<open>generateSamples\<close> returns the accumulator,
  the peaks, the voice (with its \<open>WaveAddr\<close> and \<open>CurrentVolIndex\<close>) and the register
  file as they were.
\<close>

theorem C7_disabled_voice:
  assumes "RampCtrl v AND 3 = 3" and "WaveCtrl v AND 3 = 3"
  shows "generateSamples E ram stream peak len v g = Inr (stream, peak, v, g)"
proof -
  have "RampCtrl v AND (WaveCtrl v AND 3) = RampCtrl v AND 3"
    using assms(2) by simp
  then have "RampCtrl v AND WaveCtrl v AND 3 \<noteq> 0"
    using assms(1) by simp
  then show ?thesis by (rule generateSamples_disabled)
qed

theorem C7_witness:
  "RampCtrl (new_GUSChannels 0) AND 3 = 3 \<and> WaveCtrl (new_GUSChannels 0) AND 3 = 3 \<and>
   generateSamples exact_env (\<lambda>a. 0x7f) [\<lparr> left = 0, right = 0 \<rparr>] \<lparr> left = 1, right = 1 \<rparr> 1
     (new_GUSChannels 0) (default_GFGus exact_env)
   = Inr ([\<lparr> left = 0, right = 0 \<rparr>], \<lparr> left = 1, right = 1 \<rparr>, new_GUSChannels 0,
          default_GFGus exact_env)"
proof -
  have a: "RampCtrl (new_GUSChannels 0) AND 3 = 3" by (simp add: new_GUSChannels_def)
  have b: "WaveCtrl (new_GUSChannels 0) AND 3 = 3" by (simp add: new_GUSChannels_def)
  show ?thesis using a b C7_disabled_voice [OF a b] by simp
qed

subsection \<open>The register select and the data ports\<close>

lemma clamp_le: "clamp n GUS_MIN_CHANNELS GUS_MAX_CHANNELS \<le> 32"
  by (simp add: clamp_def GUS_MIN_CHANNELS_def GUS_MAX_CHANNELS_def)

lemma clamp_ge: "14 \<le> clamp n GUS_MIN_CHANNELS GUS_MAX_CHANNELS"
  by (simp add: clamp_def GUS_MIN_CHANNELS_def GUS_MAX_CHANNELS_def)

lemma clamp_eq_le: "clamp n GUS_MIN_CHANNELS GUS_MAX_CHANNELS = m \<Longrightarrow> m \<le> 32"
  using clamp_le [of n] by simp

lemma unat_clamp:
  "unat (of_nat (clamp n GUS_MIN_CHANNELS GUS_MAX_CHANNELS) :: 8 word) =
   clamp n GUS_MIN_CHANNELS GUS_MAX_CHANNELS"
  using clamp_le [of n] by (simp add: unat_of_nat)



subsection \<open>The frequency register\<close>










subsection \<open>The interrupt scan\<close>

lemma irq_scan_Inr:
  "irq_scan n t ac c = Inr c' \<Longrightarrow> unat c' < 32 \<and> t AND 2 ^ unat c' \<noteq> 0"
  by (induction n arbitrary: c) (auto split: if_splits)

lemma and_exp_zero: "(t :: 32 word) AND 2 ^ k = 0 \<longleftrightarrow> \<not> bit t k"
proof
  assume z: "t AND 2 ^ k = 0"
  show "\<not> bit t k"
  proof
    assume "bit t k"
    then have "bit (t AND 2 ^ k) k" by (auto simp add: bit_simps dest: bit_imp_le_length)
    with z show False by simp
  qed
next
  assume "\<not> bit t k"
  then show "t AND 2 ^ k = 0" by (intro bit_word_eqI) (auto simp add: bit_simps)
qed

lemma irq_scan_unfold:
  "0 < n \<Longrightarrow> irq_scan n t ac c =
     (if 32 \<le> unat c then Inl BadShift
      else if t AND 2 ^ unat c \<noteq> 0 then Inr c
      else irq_scan (n - 1) t ac (if ac \<le> c + 1 then 0 else c + 1))"
  by (cases n) simp_all

lemma unat_succ_8: "unat c < 32 \<Longrightarrow> unat (c + 1 :: 8 word) = unat c + 1"
  by (simp add: unat_word_ariths)

lemma irq_scan_up:
  "bit t (unat c + k) \<Longrightarrow> unat c + k < unat ac \<Longrightarrow> unat ac \<le> 32 \<Longrightarrow> k < n \<Longrightarrow>
   \<exists>c'. irq_scan n t ac c = Inr c'"
proof (induction k arbitrary: c n)
  case 0
  then obtain m where "n = Suc m" by (cases n) auto
  with 0 show ?case by (simp add: and_exp_zero)
next
  case (Suc k)
  then obtain m where n: "n = Suc m" and m: "k < m" by (cases n) auto
  have c: "unat c < 32" using Suc.prems by simp
  have s: "unat (c + 1) = unat c + 1" using c by (rule unat_succ_8)
  have w: "\<not> ac \<le> c + 1" using Suc.prems s by (simp add: word_le_nat_alt)
  have "\<exists>c'. irq_scan m t ac (c + 1) = Inr c'"
    using Suc.prems s m by (intro Suc.IH) simp_all
  then show ?case using n c w by simp
qed

lemma irq_scan_zero:
  assumes "bit t j" and "j < unat ac" and "unat ac \<le> 32" and "j < n"
  shows "\<exists>c'. irq_scan n t ac 0 = Inr c'"
  using irq_scan_up [of t 0 j ac n] assms by simp

lemma irq_scan_wrap:
  "unat ac - unat c = d \<Longrightarrow> unat c < unat ac \<Longrightarrow> unat ac \<le> 32 \<Longrightarrow> bit t j \<Longrightarrow>
   j < unat ac \<Longrightarrow> d + j < n \<Longrightarrow> \<exists>c'. irq_scan n t ac c = Inr c'"
proof (induction d arbitrary: c n)
  case 0
  then show ?case by simp
next
  case (Suc d)
  then obtain m where n: "n = Suc m" and m: "d + j < m" by (cases n) auto
  have c: "unat c < 32" using Suc.prems by simp
  have s: "unat (c + 1) = unat c + 1" using c by (rule unat_succ_8)
  show ?case
  proof (cases "unat c + 1 < unat ac")
    case True
    then have w: "\<not> ac \<le> c + 1" using s by (simp add: word_le_nat_alt)
    have "\<exists>c'. irq_scan m t ac (c + 1) = Inr c'"
      using Suc.prems s m True by (intro Suc.IH) simp_all
    then show ?thesis using n c w by simp
  next
    case False
    then have w: "ac \<le> c + 1" using s by (simp add: word_le_nat_alt)
    have "\<exists>c'. irq_scan m t ac 0 = Inr c'"
      using Suc.prems m by (intro irq_scan_zero [of t j]) simp_all
    then show ?thesis using n c w by simp
  qed
qed

lemma irq_scan_total:
  assumes t: "bit t j" and j: "j < unat ac" and ac: "unat ac \<le> 32" and c: "unat c < 32"
  shows "\<exists>c'. irq_scan 256 t ac c = Inr c'"
proof (cases "unat c < unat ac")
  case True
  then show ?thesis
    using irq_scan_wrap [of ac c "unat ac - unat c" t j 256] assms by simp
next
  case False
  have s: "unat (c + 1) = unat c + 1" using c by (rule unat_succ_8)
  have w: "ac \<le> c + 1" using False s by (simp add: word_le_nat_alt)
  have z: "\<exists>c'. irq_scan 255 t ac 0 = Inr c'"
    using assms by (intro irq_scan_zero [of t j]) simp_all
  have "irq_scan 256 t ac c =
          (if t AND 2 ^ unat c \<noteq> 0 then Inr c else irq_scan 255 t ac 0)"
    using c w by (subst irq_scan_unfold) simp_all
  then show ?thesis using z by auto
qed
subsection \<open>What the voice functions keep\<close>

lemma status_cleared: "((w :: 8 word) AND 0x9f) AND 0x60 = 0"
  by (simp add: and.assoc)

lemma CheckVoiceIrq_Inr:
  assumes "CheckVoiceIrq g = Inr g'"
  obtains st c where "g' = g\<lparr> IRQStatus := st, IRQChan := c \<rparr>"
    and "c = IRQChan g \<or> unat c < 32"
    and "pending g = 0 \<Longrightarrow> st AND 0x60 = 0 \<and> c = IRQChan g"
    and "pending g \<noteq> 0 \<Longrightarrow> bit (pending g) (unat c)"
proof (cases "pending g = 0")
  case True
  then have "g' = g\<lparr> IRQStatus := IRQStatus g AND 0x9f \<rparr>"
    using assms by (simp add: CheckVoiceIrq_def Let_def pending_def)
  then have "g' = g\<lparr> IRQStatus := IRQStatus g AND 0x9f, IRQChan := IRQChan g \<rparr>"
    by simp
  then show ?thesis using True status_cleared by (intro that) auto
next
  case False
  from False assms have
    "\<exists>st c. irq_scan 256 (pending g) (ActiveChannels g) (IRQChan g) = Inr c \<and>
       g' = g\<lparr> IRQStatus := st, IRQChan := c \<rparr>"
    by (auto simp add: CheckVoiceIrq_def Let_def pending_def bind_res_eq_Inr
        split: if_splits)
  then obtain st c where
    c: "irq_scan 256 (pending g) (ActiveChannels g) (IRQChan g) = Inr c"
    and g': "g' = g\<lparr> IRQStatus := st, IRQChan := c \<rparr>"
    by blast
  from irq_scan_Inr [OF c] have "unat c < 32" and "bit (pending g) (unat c)"
    by (simp_all add: and_exp_zero)
  with g' False show ?thesis by (intro that) auto
qed

lemma CheckVoiceIrq_wf:
  assumes "CheckVoiceIrq g = Inr g'" and "gus_wf z g"
  shows "gus_wf z g'"
proof -
  from assms(1) obtain st c where "g' = g\<lparr> IRQStatus := st, IRQChan := c \<rparr>"
    and "c = IRQChan g \<or> unat c < 32"
    by (rule CheckVoiceIrq_Inr)
  with assms(2) show ?thesis by (auto simp add: gus_wf_def active_ok_def)
qed


lemma not_bit7_and_7f: "\<not> bit ((val :: 8 word) AND 0x7f) 7"
proof -
  have "(0x7f :: 8 word) = mask 7" by (simp add: mask_eq_exp_minus_1)
  then show ?thesis by (simp add: bit_simps)
qed

lemma WriteWaveCtrl_cases:
  assumes "WriteWaveCtrl val v g = Inr (v', g')"
  obtains w where
    "v' = v\<lparr> WaveCtrl := val AND 0x7f,
              getSample := (if (val AND 0x7f) AND WCTRL_16BIT \<noteq> 0 then Sample16 else Sample8),
              generated_ms := (if (val AND 0x7f) AND WCTRL_16BIT \<noteq> 0 then Sample16 else Sample8) \<rparr>"
    and "g' = g\<lparr> WaveIRQ := w \<rparr> \<or> CheckVoiceIrq (g\<lparr> WaveIRQ := w \<rparr>) = Inr g'"
proof -
  define w where "w = (if val AND 0xa0 = 0xa0 then WaveIRQ g OR irqmask v
                       else WaveIRQ g AND NOT (irqmask v))"
  from assms have
    "v' = v\<lparr> WaveCtrl := val AND 0x7f,
              getSample := (if (val AND 0x7f) AND WCTRL_16BIT \<noteq> 0 then Sample16 else Sample8),
              generated_ms := (if (val AND 0x7f) AND WCTRL_16BIT \<noteq> 0 then Sample16 else Sample8) \<rparr>"
    by (auto simp add: WriteWaveCtrl_def Let_def bind_res_eq_Inr split: if_splits)
  moreover from assms have
    "g' = g\<lparr> WaveIRQ := w \<rparr> \<or> CheckVoiceIrq (g\<lparr> WaveIRQ := w \<rparr>) = Inr g'"
    by (auto simp add: WriteWaveCtrl_def Let_def bind_res_eq_Inr w_def split: if_splits)
  ultimately show ?thesis by (rule that)
qed

lemma WriteRampCtrl_cases:
  assumes "WriteRampCtrl val v g = Inr (v', g')"
  obtains w where "v' = v\<lparr> RampCtrl := val AND 0x7f \<rparr>"
    and "g' = g\<lparr> RampIRQ := w \<rparr> \<or> CheckVoiceIrq (g\<lparr> RampIRQ := w \<rparr>) = Inr g'"
proof -
  define w where "w = (if val AND 0xa0 = 0xa0 then RampIRQ g OR irqmask v
                       else RampIRQ g AND NOT (irqmask v))"
  from assms have "v' = v\<lparr> RampCtrl := val AND 0x7f \<rparr>"
    by (auto simp add: WriteRampCtrl_def Let_def bind_res_eq_Inr split: if_splits)
  moreover from assms have
    "g' = g\<lparr> RampIRQ := w \<rparr> \<or> CheckVoiceIrq (g\<lparr> RampIRQ := w \<rparr>) = Inr g'"
    by (auto simp add: WriteRampCtrl_def Let_def bind_res_eq_Inr w_def split: if_splits)
  ultimately show ?thesis by (rule that)
qed

lemma gus_wf_WaveIRQ [simp]: "gus_wf z (g\<lparr> WaveIRQ := w \<rparr>) = gus_wf z g"
  by (simp add: gus_wf_def active_ok_def)

lemma gus_wf_RampIRQ [simp]: "gus_wf z (g\<lparr> RampIRQ := w \<rparr>) = gus_wf z g"
  by (simp add: gus_wf_def active_ok_def)

lemma gus_wf_IRQStatus [simp]: "gus_wf z (g\<lparr> IRQStatus := w \<rparr>) = gus_wf z g"
  by (simp add: gus_wf_def active_ok_def)

lemma gus_wf_peak [simp]: "gus_wf z (g\<lparr> peak_amplitude := p \<rparr>) = gus_wf z g"
  by (simp add: gus_wf_def active_ok_def)

lemma WriteWaveCtrl_keeps:
  assumes "WriteWaveCtrl val v g = Inr (v', g')"
  shows "keeps_voice v v'" and "gus_wf z g \<Longrightarrow> gus_wf z g'"
proof -
  from assms obtain w where
    v': "v' = v\<lparr> WaveCtrl := val AND 0x7f,
              getSample := (if (val AND 0x7f) AND WCTRL_16BIT \<noteq> 0 then Sample16 else Sample8),
              generated_ms := (if (val AND 0x7f) AND WCTRL_16BIT \<noteq> 0 then Sample16 else Sample8) \<rparr>"
    and g': "g' = g\<lparr> WaveIRQ := w \<rparr> \<or> CheckVoiceIrq (g\<lparr> WaveIRQ := w \<rparr>) = Inr g'"
    by (rule WriteWaveCtrl_cases)
  show "keeps_voice v v'"
    using not_bit7_and_7f [of val] by (simp add: v' keeps_voice_def ctrl_ok_def)
  show "gus_wf z g'" if "gus_wf z g"
    using g' that CheckVoiceIrq_wf [of "g\<lparr> WaveIRQ := w \<rparr>" g'] by auto
qed

lemma WriteRampCtrl_keeps:
  assumes "WriteRampCtrl val v g = Inr (v', g')"
  shows "keeps_voice v v'" and "gus_wf z g \<Longrightarrow> gus_wf z g'"
proof -
  from assms obtain w where v': "v' = v\<lparr> RampCtrl := val AND 0x7f \<rparr>"
    and g': "g' = g\<lparr> RampIRQ := w \<rparr> \<or> CheckVoiceIrq (g\<lparr> RampIRQ := w \<rparr>) = Inr g'"
    by (rule WriteRampCtrl_cases)
  show "keeps_voice v v'"
    using not_bit7_and_7f [of val] by (simp add: v' keeps_voice_def ctrl_ok_def)
  show "gus_wf z g'" if "gus_wf z g"
    using g' that CheckVoiceIrq_wf [of "g\<lparr> RampIRQ := w \<rparr>" g'] by auto
qed

lemma keeps_voice_refl [simp]: "keeps_voice v v"
  by (simp add: keeps_voice_def)

lemma keeps_voice_trans: "keeps_voice a b \<Longrightarrow> keeps_voice b c \<Longrightarrow> keeps_voice a c"
  by (simp add: keeps_voice_def)

lemma keeps_voice_ok: "voice_ok i v \<Longrightarrow> keeps_voice v v' \<Longrightarrow> voice_ok i v'"
  by (simp add: keeps_voice_def voice_ok_def)

lemma bit7_xor_40: "bit ((w :: 8 word) XOR 0x40) 7 = bit w 7"
proof -
  have "(0x40 :: 8 word) = 2 ^ 6" by simp
  then show ?thesis by (simp add: bit_simps)
qed

lemma bit7_or_1: "bit ((w :: 8 word) OR 1) 7 = bit w 7"
  by (simp add: bit_simps)

lemma WaveUpdate_ctrl:
  "WaveCtrl (fst (WaveUpdate v g)) \<in> {WaveCtrl v, WaveCtrl v OR 1, WaveCtrl v XOR 0x40}"
  "RampCtrl (fst (WaveUpdate v g)) = RampCtrl v"
  "irqmask (fst (WaveUpdate v g)) = irqmask v"
  by (simp_all add: WaveUpdate_def Let_def WCTRL_DECREASING_def)

lemma RampUpdate_ctrl:
  "RampCtrl (fst (RampUpdate v g)) \<in> {RampCtrl v, RampCtrl v OR 1, RampCtrl v XOR 0x40}"
  "WaveCtrl (fst (RampUpdate v g)) = WaveCtrl v"
  "irqmask (fst (RampUpdate v g)) = irqmask v"
  "WaveAddr (fst (RampUpdate v g)) = WaveAddr v"
  by (simp_all add: RampUpdate_def Let_def)

lemma WaveUpdate_keeps: "keeps_voice v (fst (WaveUpdate v g))"
  using WaveUpdate_ctrl [of v g] bit7_xor_40 [of "WaveCtrl v"] bit7_or_1 [of "WaveCtrl v"]
  by (auto simp add: keeps_voice_def ctrl_ok_def)

lemma RampUpdate_keeps: "keeps_voice v (fst (RampUpdate v g))"
  using RampUpdate_ctrl [of v g] bit7_xor_40 [of "RampCtrl v"] bit7_or_1 [of "RampCtrl v"]
  by (auto simp add: keeps_voice_def ctrl_ok_def)

lemma WaveUpdate_wf [simp]: "gus_wf z (snd (WaveUpdate v g)) = gus_wf z g"
  by (simp add: WaveUpdate_def Let_def)

lemma RampUpdate_wf [simp]: "gus_wf z (snd (RampUpdate v g)) = gus_wf z g"
  by (simp add: RampUpdate_def Let_def)

lemma generate_frame_keeps:
  assumes "generate_frame E ram pos stream peak v g = Inr (stream', peak', v', g')"
  shows "keeps_voice v v'" and "gus_wf z g' = gus_wf z g" and "length stream' = length stream"
proof -
  from assms have v': "v' = fst (RampUpdate (fst (WaveUpdate v g)) (snd (WaveUpdate v g)))"
    and g': "g' = snd (RampUpdate (fst (WaveUpdate v g)) (snd (WaveUpdate v g)))"
    and l: "length stream' = length stream"
    by (auto simp add: generate_frame_def Let_def bind_res_eq_Inr split: if_splits)
  show "keeps_voice v v'"
    unfolding v' using WaveUpdate_keeps RampUpdate_keeps by (rule keeps_voice_trans)
  show "gus_wf z g' = gus_wf z g" unfolding g' by simp
  show "length stream' = length stream" by (rule l)
qed

lemma generate_loop_keeps:
  "generate_loop E ram len pos stream peak v g = Inr (stream', peak', v', g') \<Longrightarrow>
   keeps_voice v v' \<and> gus_wf z g' = gus_wf z g \<and> length stream' = length stream"
proof (induction len arbitrary: pos stream peak v g)
  case 0
  then show ?case by simp
next
  case (Suc len)
  from Suc.prems obtain s1 p1 v1 g1 where
    f: "generate_frame E ram pos stream peak v g = Inr (s1, p1, v1, g1)"
    and r: "generate_loop E ram len (Suc pos) s1 p1 v1 g1 = Inr (stream', peak', v', g')"
    by (auto simp add: bind_res_eq_Inr)
  from generate_frame_keeps [OF f] Suc.IH [OF r] show ?case
    by (auto intro: keeps_voice_trans)
qed

lemma bump_generated_ms_keeps: "keeps_voice v (bump_generated_ms v)"
  by (simp add: bump_generated_ms_def keeps_voice_def ctrl_ok_def split: sampler.splits)

lemma generateSamples_keeps:
  assumes "generateSamples E ram stream peak len v g = Inr (stream', peak', v', g')"
  shows "keeps_voice v v' \<and> gus_wf z g' = gus_wf z g \<and> length stream' = length stream"
proof (cases "RampCtrl v AND WaveCtrl v AND 3 \<noteq> 0")
  case True
  with assms show ?thesis by (simp add: generateSamples_def)
next
  case False
  with assms obtain v1 where
    l: "generate_loop E ram len 0 stream peak v g = Inr (stream', peak', v1, g')"
    and v': "v' = bump_generated_ms v1"
    by (auto simp add: generateSamples_def bind_res_eq_Inr)
  from generate_loop_keeps [OF l] bump_generated_ms_keeps [of v1] show ?thesis
    unfolding v' by (auto intro: keeps_voice_trans)
qed

lemma mix_voices_keeps:
  "mix_voices E ram len vs acc g = Inr (vs', acc', g') \<Longrightarrow>
   list_all2 keeps_voice vs vs' \<and> gus_wf z g' = gus_wf z g \<and> length acc' = length acc"
proof (induction vs arbitrary: acc g vs')
  case Nil
  then show ?case by simp
next
  case (Cons v vs)
  from Cons.prems obtain a1 p1 v1 g1 ws where
    s: "generateSamples E ram acc (peak_amplitude g) len v g = Inr (a1, p1, v1, g1)"
    and m: "mix_voices E ram len vs a1 (g1\<lparr> peak_amplitude := p1 \<rparr>) = Inr (ws, acc', g')"
    and vs': "vs' = v1 # ws"
    by (auto simp add: bind_res_eq_Inr)
  from generateSamples_keeps [OF s] Cons.IH [OF m] show ?case
    unfolding vs' by simp
qed

lemma voices_ok_all2: "list_all2 keeps_voice vs vs' \<Longrightarrow> voices_ok vs \<Longrightarrow> voices_ok vs'"
  by (auto simp add: voices_ok_def list_all2_conv_all_nth intro: keeps_voice_ok)

lemma all2_list_update:
  "i < length vs \<Longrightarrow> keeps_voice (vs ! i) v' \<Longrightarrow> list_all2 keeps_voice vs (vs[i := v'])"
  by (auto simp add: list_all2_conv_all_nth nth_list_update)

lemma all2_take_drop:
  assumes "list_all2 keeps_voice (take n vs) ws"
  shows "list_all2 keeps_voice vs (ws @ drop n vs)"
proof -
  have "list_all2 keeps_voice (drop n vs) (drop n vs)"
    by (simp add: list_all2_conv_all_nth)
  with assms have "list_all2 keeps_voice (take n vs @ drop n vs) (ws @ drop n vs)"
    by (rule list_all2_appendI)
  then show ?thesis by simp
qed

lemma reset_channel_keeps:
  assumes "reset_channel v g = Inr (v', g')"
  shows "keeps_voice v v'" and "gus_wf z g \<Longrightarrow> gus_wf z g'"
proof -
  from assms obtain v1 g1 v2 where
    a: "WriteWaveCtrl 0x1 (v\<lparr> CurrentVolIndex := 0 \<rparr>) g = Inr (v1, g1)"
    and b: "WriteRampCtrl 0x1 v1 g1 = Inr (v2, g')"
    and v': "v' = ClearStats (WritePanPot 0x7 v2)"
    by (auto simp add: reset_channel_def bind_res_eq_Inr)
  have "keeps_voice v (v\<lparr> CurrentVolIndex := 0 \<rparr>)"
    by (simp add: keeps_voice_def ctrl_ok_def)
  moreover have "keeps_voice v2 v'"
    by (simp add: v' keeps_voice_def ctrl_ok_def ClearStats_def WritePanPot_def)
  ultimately show "keeps_voice v v'"
    using WriteWaveCtrl_keeps(1) [OF a] WriteRampCtrl_keeps(1) [OF b]
    by (blast intro: keeps_voice_trans)
  show "gus_wf z g'" if "gus_wf z g"
    using that WriteWaveCtrl_keeps(2) [OF a] WriteRampCtrl_keeps(2) [OF b] by simp
qed

lemma reset_channels_keeps:
  "reset_channels vs g = Inr (vs', g') \<Longrightarrow>
   list_all2 keeps_voice vs vs' \<and> (gus_wf z g \<longrightarrow> gus_wf z g')"
proof (induction vs arbitrary: g vs')
  case Nil
  then show ?case by simp
next
  case (Cons v vs)
  from Cons.prems obtain v1 g1 ws where
    a: "reset_channel v g = Inr (v1, g1)"
    and b: "reset_channels vs g1 = Inr (ws, g')"
    and vs': "vs' = v1 # ws"
    by (auto simp add: bind_res_eq_Inr)
  from reset_channel_keeps [OF a] Cons.IH [OF b] show ?case
    unfolding vs' by simp
qed

subsection \<open>What the register writes and reads keep\<close>

lemma on_curchan_ok:
  assumes "on_curchan f s = Inr s'" and "card_ok z s"
    and "\<And>v g v' g'. f v g = Inr (v', g') \<Longrightarrow> keeps_voice v v' \<and> (gus_wf z g \<longrightarrow> gus_wf z g')"
  shows "card_ok z s'"
proof (cases "curchan s")
  case None
  with assms(1,2) show ?thesis by (simp add: on_curchan_def)
next
  case (Some i)
  with assms(1) obtain v g where i: "i < length (guschan s)"
    and f: "f (guschan s ! i) (myGUS s) = Inr (v, g)"
    and s': "s' = s\<lparr> myGUS := g, guschan := (guschan s)[i := v] \<rparr>"
    by (auto simp add: on_curchan_def bind_res_eq_Inr split: if_splits)
  from assms(3) [OF f] have k: "keeps_voice (guschan s ! i) v" and w: "gus_wf z (myGUS s) \<longrightarrow> gus_wf z g"
    by simp_all
  from all2_list_update [OF i k] assms(2) have "voices_ok ((guschan s)[i := v])"
    by (auto simp add: card_ok_def intro: voices_ok_all2)
  with w assms(2) show ?thesis by (simp add: s' card_ok_def)
qed

lemma set_curchan_ok:
  assumes "set_curchan f s = Inr s'" and "card_ok z s" and "\<And>v. keeps_voice v (f v)"
  shows "card_ok z s'"
  using assms(1,2) unfolding set_curchan_def
  by (rule on_curchan_ok) (use assms(3) in auto)

lemma UpdateWaveRamp_keeps: "keeps_voice v (UpdateWaveRamp v)"
  by (simp add: UpdateWaveRamp_def WriteRampRate_def WriteWaveFreq_def Let_def keeps_voice_def
      ctrl_ok_def)

lemma all2_map_keeps: "(\<And>v. keeps_voice v (f v)) \<Longrightarrow> list_all2 keeps_voice vs (map f vs)"
  by (simp add: list_all2_conv_all_nth)

lemma set_active_channels_ok:
  assumes "set_active_channels s = Inr s'" and "card_ok z s"
  shows "card_ok z s'"
proof -
  from assms(1) have g: "gus_wf z (myGUS s) \<longrightarrow> gus_wf z (myGUS s')"
    by (auto simp add: set_active_channels_def Let_def gus_wf_def active_ok_def
        unat_clamp clamp_le clamp_ge split: if_splits)
  from assms(1) have "\<exists>k. guschan s' = map UpdateWaveRamp (take k (guschan s)) @ drop k (guschan s)"
    by (auto simp add: set_active_channels_def Let_def split: if_splits)
  then obtain k where "guschan s' = map UpdateWaveRamp (take k (guschan s)) @ drop k (guschan s)"
    by blast
  moreover have "list_all2 keeps_voice (take k (guschan s)) (map UpdateWaveRamp (take k (guschan s)))"
    by (rule all2_map_keeps) (rule UpdateWaveRamp_keeps)
  ultimately have "list_all2 keeps_voice (guschan s) (guschan s')"
    by (simp add: all2_take_drop)
  with assms(2) g show ?thesis by (auto simp add: card_ok_def intro: voices_ok_all2)
qed

lemma GUSReset_ok:
  assumes "GUSReset E s = Inr s'" and "card_ok z s"
  shows "card_ok z s'"
proof (cases "gRegData (myGUS s) AND 0x1 = 0x1")
  case False
  with assms show ?thesis
    by (auto simp add: GUSReset_def card_ok_def gus_wf_def active_ok_def)
next
  case True
  define g0 where "g0 = (myGUS s)
                 \<lparr> IRQStatus := 0,
                   timer0 := (timer0 (myGUS s))
                     \<lparr> raiseirq := False, reached := False, running := False,
                       timer_value := 0xff, delay := fround E (80 / 1000) \<rparr>,
                   timer1 := (timer1 (myGUS s))
                     \<lparr> raiseirq := False, reached := False, running := False,
                       timer_value := 0xff, delay := fround E (320 / 1000) \<rparr>,
                   ChangeIRQDMA := False,
                   mixControl := 0x0b \<rparr>"
  from True assms(1) obtain vs g1 where
    r: "reset_channels (guschan s) g0 = Inr (vs, g1)"
    and vs: "guschan s' = vs"
    and g': "active_ok z (myGUS s') = active_ok z g1" "IRQChan (myGUS s') = 0"
    by (auto simp add: GUSReset_def Let_def bind_res_eq_Inr g0_def active_ok_def)
  have "gus_wf z g0" using assms(2) by (simp add: g0_def card_ok_def gus_wf_def active_ok_def)
  with reset_channels_keeps [OF r] have "list_all2 keeps_voice (guschan s) vs" and "gus_wf z g1"
    by simp_all
  with assms(2) vs g' show ?thesis
    by (auto simp add: card_ok_def gus_wf_def intro: voices_ok_all2)
qed

lemma card_ok_myGUS:
  "ActiveChannels g = ActiveChannels (myGUS s) \<Longrightarrow> ActiveMask g = ActiveMask (myGUS s) \<Longrightarrow>
   IRQChan g = IRQChan (myGUS s) \<Longrightarrow> card_ok z (s\<lparr> myGUS := g \<rparr>) = card_ok z s"
  by (simp add: card_ok_def gus_wf_def active_ok_def)

lemma ExecuteGlobRegister_ok:
  assumes "ExecuteGlobRegister E s = Inr s'" and "card_ok z s"
  shows "card_ok z s'"
  using assms unfolding ExecuteGlobRegister_def Let_def
  by (auto split: if_splits
      simp add: card_ok_myGUS keeps_voice_def ctrl_ok_def WriteWaveFreq_def WriteRampRate_def
        WritePanPot_def Let_def
      intro: on_curchan_ok set_curchan_ok set_active_channels_ok GUSReset_ok
        WriteWaveCtrl_keeps WriteRampCtrl_keeps)

lemma write_gus_ok:
  assumes "write_gus E port val iolen s = Inr s'" and "card_ok z s"
  shows "card_ok z s'"
  using assms unfolding write_gus_def Let_def
  by (auto split: if_splits simp add: card_ok_myGUS dest: ExecuteGlobRegister_ok)
    (simp_all add: card_ok_def gus_wf_def active_ok_def)

lemma ExecuteReadRegister_ok:
  assumes "ExecuteReadRegister s = Inr (r, s')" and "card_ok z s"
  shows "card_ok z s'"
proof (cases "gRegSelect (myGUS s) = 0x8f")
  case False
  with assms show ?thesis
    unfolding ExecuteReadRegister_def Let_def read_curchan_def
    by (auto split: if_splits simp add: card_ok_myGUS bind_res_eq_Inr)
next
  case True
  define mask where "mask = (push_bit (unat (IRQChan (myGUS s))) 1 :: 32 word)"
  define g1 where "g1 = (myGUS s)\<lparr> RampIRQ := RampIRQ (myGUS s) AND NOT mask,
                                   WaveIRQ := WaveIRQ (myGUS s) AND NOT mask \<rparr>"
  from True assms(1) obtain g2 where c: "CheckVoiceIrq g1 = Inr g2" and s': "s' = s\<lparr> myGUS := g2 \<rparr>"
    by (auto simp add: ExecuteReadRegister_def Let_def bind_res_eq_Inr g1_def mask_def
        split: if_splits)
  have "gus_wf z g1" using assms(2) by (simp add: g1_def card_ok_def)
  with c have "gus_wf z g2" by (rule CheckVoiceIrq_wf)
  with assms(2) show ?thesis by (simp add: s' card_ok_def)
qed

lemma read_gus_ok:
  assumes "read_gus port iolen s = Inr (r, s')" and "card_ok z s"
  shows "card_ok z s'"
  using assms unfolding read_gus_def Let_def
  by (auto split: if_splits simp add: bind_res_eq_Inr dest: ExecuteReadRegister_ok)

lemma GUS_TimerEvent_ok:
  assumes "GUS_TimerEvent val s = Inr s'" and "card_ok z s"
  shows "card_ok z s'"
  using assms unfolding GUS_TimerEvent_def Let_def
  by (auto split: if_splits simp add: card_ok_myGUS card_ok_def gus_wf_def active_ok_def)

lemma accumulate_ok:
  assumes "accumulate E len s = Inr (vs, acc, g)" and "card_ok z s"
  shows "voices_ok vs" and "gus_wf z g" and "length acc = GUS_BUFFER_FRAMES"
proof -
  define n where "n = unat (ActiveChannels (myGUS s))"
  from assms(1) obtain ws where
    m: "mix_voices E (GUSRam s) len (take n (guschan s))
          (replicate GUS_BUFFER_FRAMES \<lparr> left = fround E 0, right = fround E 0 \<rparr>) (myGUS s)
        = Inr (ws, acc, g)"
    and vs: "vs = ws @ drop n (guschan s)"
    by (auto simp add: accumulate_def Let_def bind_res_eq_Inr n_def split: if_splits)
  from mix_voices_keeps [OF m] have a: "list_all2 keeps_voice (take n (guschan s)) ws"
    and w: "gus_wf z g = gus_wf z (myGUS s)" and l: "length acc = GUS_BUFFER_FRAMES"
    by simp_all
  from all2_take_drop [OF a] assms(2) show "voices_ok vs"
    unfolding vs by (auto simp add: card_ok_def intro: voices_ok_all2)
  from w assms(2) show "gus_wf z g" by (simp add: card_ok_def)
  show "length acc = GUS_BUFFER_FRAMES" by (rule l)
qed

lemma SoftLimit_wf:
  "SoftLimit E inp len g = Inr (r, g') \<Longrightarrow> gus_wf z g' = gus_wf z g"
  by (auto simp add: SoftLimit_def Let_def bind_res_eq_Inr split: if_splits)

lemma emit_block_wf:
  assumes "emit_block E acc len g = Inr (out, g')" and "gus_wf z g"
  shows "gus_wf z g'"
proof -
  from assms(1) obtain r g1 where s: "SoftLimit E acc len g = Inr (r, g1)"
    and c: "CheckVoiceIrq g1 = Inr g'"
    by (auto simp add: emit_block_def bind_res_eq_Inr)
  from SoftLimit_wf [OF s] assms(2) have "gus_wf z g1" by simp
  with c show ?thesis by (rule CheckVoiceIrq_wf)
qed

lemma GUS_CallBack_ok:
  assumes "GUS_CallBack E len s = Inr (out, s')" and "card_ok z s"
  shows "card_ok z s'"
proof -
  from assms(1) obtain vs acc g g' where a: "accumulate E len s = Inr (vs, acc, g)"
    and e: "emit_block E acc len g = Inr (out, g')"
    and s': "s' = s\<lparr> myGUS := g', guschan := vs \<rparr>"
    by (auto simp add: GUS_CallBack_def bind_res_eq_Inr)
  from accumulate_ok [OF a assms(2)] emit_block_wf [OF e] show ?thesis
    by (simp add: s' card_ok_def)
qed

lemma step_ok:
  assumes "step E a s = Inr s'" and "card_ok z s"
  shows "card_ok z s'"
  using assms
  by (cases a)
    (auto simp add: step_def bind_res_eq_Inr
      dest: write_gus_ok read_gus_ok GUS_CallBack_ok GUS_TimerEvent_ok)

subsection \<open>Construction\<close>

lemma no_irq_same:
  "WaveIRQ g = 0 \<Longrightarrow> RampIRQ g = 0 \<Longrightarrow> g\<lparr> WaveIRQ := 0, RampIRQ := 0 \<rparr> = (g :: 'f GFGus)"
  by simp

lemma reset_channel_fresh:
  assumes "WaveIRQ g = 0" and "RampIRQ g = 0"
  shows "reset_channel v g =
     Inr (ClearStats (WritePanPot 0x7
            (v\<lparr> CurrentVolIndex := 0, WaveCtrl := 1, getSample := Sample8,
                generated_ms := Sample8, RampCtrl := 1 \<rparr>)), g)"
  using assms no_irq_same [OF assms]
  by (simp add: reset_channel_def WriteWaveCtrl_def WriteRampCtrl_def Let_def WCTRL_16BIT_def)

lemma reset_channels_fresh:
  "WaveIRQ g = 0 \<Longrightarrow> RampIRQ g = 0 \<Longrightarrow>
   reset_channels vs g =
     Inr (map (\<lambda>v. ClearStats (WritePanPot 0x7
            (v\<lparr> CurrentVolIndex := 0, WaveCtrl := 1, getSample := Sample8,
                generated_ms := Sample8, RampCtrl := 1 \<rparr>))) vs, g)"
  by (induction vs) (simp_all add: reset_channel_fresh)

lemma GUS_init_fresh: "GUS_init E gusbase dma_val irq_val = Inr (fresh_card E gusbase dma_val irq_val)"
  by (simp add: GUS_init_def GUSReset_def Let_def reset_channels_fresh default_GFGus_def
      default_timer_def fresh_card_def new_GUSChannels_def ClearStats_def WritePanPot_def
      GUS_PAN_POSITIONS_def)

lemma fresh_card_ok: "card_ok True (fresh_card E gusbase dma_val irq_val)"
  by (simp add: fresh_card_def card_ok_def gus_wf_def active_ok_def default_GFGus_def
      voices_ok_def voice_ok_def ctrl_ok_def new_GUSChannels_def GUS_MAX_CHANNELS_def)

lemma reachable_card_ok: "reachable E s \<Longrightarrow> card_ok True s"
proof (induction rule: reachable.induct)
  case (reachable_init gusbase dma_val irq_val s)
  then show ?case using fresh_card_ok [of E gusbase dma_val irq_val] by (simp add: GUS_init_fresh)
next
  case (reachable_step s a s')
  then show ?case using step_ok by blast
qed


lemma active_mask_bits:
  assumes "n \<le> 32"
  shows "bit (drop_bit (32 - n) (0xffffffff :: 32 word)) i \<longleftrightarrow> i < n"
proof -
  have e: "(0xffffffff :: 32 word) = - 1" by simp
  show ?thesis unfolding e using assms by (auto simp add: bit_simps)
qed

lemma clamp_eq_ge: "clamp n GUS_MIN_CHANNELS GUS_MAX_CHANNELS = m \<Longrightarrow> 14 \<le> m"
  using clamp_ge [of n] by simp

lemma set_active_channels_range:
  assumes "set_active_channels s = Inr s'"
  shows "14 \<le> unat (ActiveChannels (myGUS s')) \<and> unat (ActiveChannels (myGUS s')) \<le> 32"
  using assms
  by (auto simp add: set_active_channels_def Let_def unat_clamp clamp_le clamp_ge
      split: if_splits dest: clamp_eq_le clamp_eq_ge)

lemma reachable_run: "reachable E s \<Longrightarrow> run E as s = Inr s' \<Longrightarrow> reachable E s'"
proof (induction as arbitrary: s)
  case Nil
  then show ?case by simp
next
  case (Cons a as)
  then show ?case by (auto simp add: bind_res_eq_Inr intro: reachable_step)
qed

lemma reachable_fresh: "reachable E (fresh_card E gusbase dma_val irq_val)"
  by (rule reachable_init) (rule GUS_init_fresh)

subsection \<open>Draining the voice interrupts\<close>

lemma word_nonzero_bit: "(w :: 32 word) \<noteq> 0 \<Longrightarrow> \<exists>j. bit w j"
  by (auto simp add: bit_eq_iff)

lemma pending_below_count:
  assumes "gus_wf z g" and "bit (pending g) j"
  shows "j < unat (ActiveChannels g)" and "unat (ActiveChannels g) \<le> 32"
proof -
  from assms(2) have m: "bit (ActiveMask g) j" by (simp add: pending_def bit_simps)
  then have "ActiveMask g \<noteq> 0" by auto
  with assms(1) have n: "unat (ActiveChannels g) \<le> 32"
    and e: "ActiveMask g = drop_bit (32 - unat (ActiveChannels g)) 0xffffffff"
    by (auto simp add: gus_wf_def active_ok_def)
  from m e active_mask_bits [OF n, of j] show "j < unat (ActiveChannels g)" by simp
  from n show "unat (ActiveChannels g) \<le> 32" .
qed

lemma CheckVoiceIrq_total:
  assumes "gus_wf z g"
  shows "\<exists>g'. CheckVoiceIrq g = Inr g'"
proof (cases "pending g = 0")
  case True
  then show ?thesis by (simp add: CheckVoiceIrq_def Let_def pending_def)
next
  case False
  then obtain j where j: "bit (pending g) j" using word_nonzero_bit by blast
  from assms have c: "unat (IRQChan g) < 32" by (simp add: gus_wf_def)
  from irq_scan_total [OF j pending_below_count [OF assms j] c]
  obtain c' where "irq_scan 256 (pending g) (ActiveChannels g) (IRQChan g) = Inr c'" by blast
  with False show ?thesis by (auto simp add: CheckVoiceIrq_def Let_def pending_def)
qed

lemma bits_finite: "finite {i. bit (w :: 32 word) i}"
proof (rule finite_subset)
  show "{i. bit w i} \<subseteq> {..<32}" by (auto dest: bit_imp_le_length)
  show "finite {..<32 :: nat}" by simp
qed

lemma bits_card_le: "card {i. bit (w :: 32 word) i} \<le> 32"
proof -
  have "{i. bit w i} \<subseteq> {..<32}" by (auto dest: bit_imp_le_length)
  then have "card {i. bit w i} \<le> card {..<32 :: nat}" by (intro card_mono) simp_all
  then show ?thesis by simp
qed

lemma bits_clear: "{i. bit ((w :: 32 word) AND NOT (2 ^ k)) i} = {i. bit w i} - {k}"
  by (auto simp add: bit_simps dest: bit_imp_le_length)

lemma pending_clear:
  "pending (g\<lparr> RampIRQ := RampIRQ g AND NOT m, WaveIRQ := WaveIRQ g AND NOT m \<rparr>)
   = pending g AND NOT m"
  by (rule bit_word_eqI) (auto simp add: pending_def bit_simps)

lemma pending_status [simp]: "pending (g\<lparr> IRQStatus := st \<rparr>) = pending g"
  by (simp add: pending_def)

lemma pending_chan [simp]: "pending (g\<lparr> IRQChan := c \<rparr>) = pending g"
  by (simp add: pending_def)

text \<open>One read of register 0x8f, on the register file.\<close>

lemma read_8f_regs:
  assumes wf: "gus_wf z g"
  defines "m \<equiv> (2 :: 32 word) ^ unat (IRQChan g)"
  defines "g1 \<equiv> g\<lparr> RampIRQ := RampIRQ g AND NOT m, WaveIRQ := WaveIRQ g AND NOT m \<rparr>"
  obtains g' where "CheckVoiceIrq g1 = Inr g'" and "gus_wf z g'" and "cursor_ok g'"
    and "pending g' = pending g AND NOT m"
    and "gRegSelect g' = gRegSelect g" and "portbase g' = portbase g"
    and "RampIRQ g' = RampIRQ g AND NOT m" and "WaveIRQ g' = WaveIRQ g AND NOT m"
proof -
  have wf1: "gus_wf z g1" using wf by (simp add: g1_def)
  then obtain g' where c: "CheckVoiceIrq g1 = Inr g'" using CheckVoiceIrq_total by blast
  from c obtain st ch where g': "g' = g1\<lparr> IRQStatus := st, IRQChan := ch \<rparr>"
    and "ch = IRQChan g1 \<or> unat ch < 32"
    and z: "pending g1 = 0 \<Longrightarrow> st AND 0x60 = 0 \<and> ch = IRQChan g1"
    and nz: "pending g1 \<noteq> 0 \<Longrightarrow> bit (pending g1) (unat ch)"
    by (rule CheckVoiceIrq_Inr) blast
  have p: "pending g' = pending g AND NOT m"
    unfolding g' by (simp add: g1_def pending_clear)
  have "cursor_ok g'"
    using z nz unfolding cursor_ok_def g' by (cases "pending g1 = 0") auto
  moreover have "gus_wf z g'" using c wf1 by (rule CheckVoiceIrq_wf)
  moreover have "gRegSelect g' = gRegSelect g" "portbase g' = portbase g"
    "RampIRQ g' = RampIRQ g AND NOT m" "WaveIRQ g' = WaveIRQ g AND NOT m"
    by (simp_all add: g' g1_def)
  ultimately show ?thesis using c p by (intro that)
qed

lemma pending_count_read:
  assumes "pending g' = pending g AND NOT (2 ^ unat (IRQChan g))"
  shows "pending_count g' \<le> pending_count g"
    and "bit (pending g) (unat (IRQChan g)) \<Longrightarrow> pending_count g' < pending_count g"
    and "\<not> bit (pending g) (unat (IRQChan g)) \<Longrightarrow> unat (IRQChan g) < 32 \<Longrightarrow>
         pending_count g' \<le> 31"
proof -
  let ?k = "unat (IRQChan g)"
  have e: "{i. bit (pending g') i} = {i. bit (pending g) i} - {?k}"
    unfolding assms by (rule bits_clear)
  show "pending_count g' \<le> pending_count g"
    unfolding pending_count_def e by (intro card_mono bits_finite) auto
  show "pending_count g' < pending_count g" if "bit (pending g) ?k"
    unfolding pending_count_def e using that by (intro card_Diff1_less bits_finite) simp
  show "pending_count g' \<le> 31" if "\<not> bit (pending g) ?k" and "?k < 32"
  proof -
    have "{i. bit (pending g) i} - {?k} \<subseteq> {..<32} - {?k}"
      by (auto dest: bit_imp_le_length)
    then have "card ({i. bit (pending g) i} - {?k}) \<le> card ({..<32} - {?k})"
      by (intro card_mono) simp_all
    also have "\<dots> = 31" using that(2) by simp
    finally show ?thesis unfolding pending_count_def e .
  qed
qed

lemma pending_count_zero: "pending_count g = 0 \<Longrightarrow> pending g = 0"
  using bits_finite [of "pending g"] word_nonzero_bit [of "pending g"]
  by (auto simp add: pending_count_def)

text \<open>One read of register 0x8f through port 0x305.\<close>

lemma step_read_8f:
  assumes "gRegSelect (myGUS s) = 0x8f" and "p - portbase (myGUS s) = 0x305"
    and "gus_wf z (myGUS s)"
  obtains s' where "step E (Read p 1) s = Inr s'"
    and "gRegSelect (myGUS s') = 0x8f" and "p - portbase (myGUS s') = 0x305"
    and "gus_wf z (myGUS s')" and "cursor_ok (myGUS s')"
    and "pending (myGUS s') = pending (myGUS s) AND NOT (2 ^ unat (IRQChan (myGUS s)))"
proof -
  let ?g = "myGUS s"
  let ?m = "(2 :: 32 word) ^ unat (IRQChan ?g)"
  from assms(3) have c: "unat (IRQChan ?g) < 32" by (simp add: gus_wf_def)
  from read_8f_regs [OF assms(3)] obtain g' where
    k: "CheckVoiceIrq (?g\<lparr> RampIRQ := RampIRQ ?g AND NOT ?m, WaveIRQ := WaveIRQ ?g AND NOT ?m \<rparr>)
        = Inr g'"
    and g': "gus_wf z g'" "cursor_ok g'" "pending g' = pending ?g AND NOT ?m"
      "gRegSelect g' = gRegSelect ?g" "portbase g' = portbase ?g"
    by blast
  have "step E (Read p 1) s = Inr (s\<lparr> myGUS := g' \<rparr>)"
    using assms(1,2) c k
    by (simp add: step_def read_gus_def ExecuteReadRegister_def Let_def)
  then show ?thesis using g' assms(1,2) by (intro that [of "s\<lparr> myGUS := g' \<rparr>"]) simp_all
qed

lemma drain_settled:
  "gRegSelect (myGUS s) = 0x8f \<Longrightarrow> p - portbase (myGUS s) = 0x305 \<Longrightarrow>
   gus_wf z (myGUS s) \<Longrightarrow> cursor_ok (myGUS s) \<Longrightarrow> pending_count (myGUS s) \<le> n \<Longrightarrow>
   \<exists>s'. run E (replicate n (Read p 1)) s = Inr s' \<and> IRQStatus (myGUS s') AND 0x60 = 0"
proof (induction n arbitrary: s)
  case 0
  then have "pending (myGUS s) = 0" by (simp add: pending_count_zero)
  with 0 show ?case by (auto simp add: cursor_ok_def)
next
  case (Suc n)
  from step_read_8f [OF Suc.prems(1,2,3), of E] obtain s1 where
    st: "step E (Read p 1) s = Inr s1"
    and s1: "gRegSelect (myGUS s1) = 0x8f" "p - portbase (myGUS s1) = 0x305"
      "gus_wf z (myGUS s1)" "cursor_ok (myGUS s1)"
    and pe: "pending (myGUS s1) = pending (myGUS s) AND NOT (2 ^ unat (IRQChan (myGUS s)))"
    by blast
  have "pending_count (myGUS s1) \<le> n"
  proof (cases "bit (pending (myGUS s)) (unat (IRQChan (myGUS s)))")
    case True
    with pending_count_read(2) [OF pe] Suc.prems(5) show ?thesis by simp
  next
    case False
    with Suc.prems(4) have "pending (myGUS s) = 0" by (simp add: cursor_ok_def)
    with pe have "pending (myGUS s1) = 0" by simp
    then show ?thesis by (simp add: pending_count_def)
  qed
  from Suc.IH [OF s1 this] st show ?case by simp
qed

lemma drain_32:
  assumes "gRegSelect (myGUS s) = 0x8f" and "p - portbase (myGUS s) = 0x305"
    and "gus_wf z (myGUS s)"
  shows "\<exists>s'. run E (replicate 32 (Read p 1)) s = Inr s' \<and> IRQStatus (myGUS s') AND 0x60 = 0"
proof -
  from step_read_8f [OF assms, of E] obtain s1 where
    st: "step E (Read p 1) s = Inr s1"
    and s1: "gRegSelect (myGUS s1) = 0x8f" "p - portbase (myGUS s1) = 0x305"
      "gus_wf z (myGUS s1)" "cursor_ok (myGUS s1)"
    and pe: "pending (myGUS s1) = pending (myGUS s) AND NOT (2 ^ unat (IRQChan (myGUS s)))"
    by blast
  from assms(3) have c: "unat (IRQChan (myGUS s)) < 32" by (simp add: gus_wf_def)
  have "pending_count (myGUS s1) \<le> 31"
  proof (cases "bit (pending (myGUS s)) (unat (IRQChan (myGUS s)))")
    case True
    from pending_count_read(2) [OF pe True] bits_card_le [of "pending (myGUS s)"]
    show ?thesis by (simp add: pending_count_def)
  next
    case False
    from pending_count_read(3) [OF pe False c] show ?thesis .
  qed
  from drain_settled [OF s1 this, of E] obtain s' where
    "run E (replicate 31 (Read p 1)) s1 = Inr s'" and "IRQStatus (myGUS s') AND 0x60 = 0"
    by blast
  moreover have "replicate 32 (Read p 1) = Read p 1 # replicate 31 (Read p 1)"
    by (simp add: numeral_eq_Suc)
  ultimately show ?thesis using st by simp
qed


subsection \<open>Evaluating concrete runs\<close>

lemmas eval_defs =
  step_def write_gus_def read_gus_def ExecuteGlobRegister_def ExecuteReadRegister_def
  set_active_channels_def set_curchan_def on_curchan_def read_curchan_def cur_voice_def
  WriteWaveCtrl_def WriteRampCtrl_def WriteWaveFreq_def WriteRampRate_def WritePanPot_def
  UpdateWaveRamp_def CheckVoiceIrq_def clamp_def Let_def
  GUS_MIN_CHANNELS_def GUS_MAX_CHANNELS_def GUS_PAN_POSITIONS_def GUS_RAM_SIZE_def
  GUS_BUFFER_FRAMES_def GUS_VOLUME_POSITIONS_def WAVE_FRACT_def WAVE_FRACT_MASK_def
  WAVE_MSWMASK_def WAVE_LSWMASK_def
  WCTRL_STOPPED_def WCTRL_STOP_def WCTRL_16BIT_def WCTRL_LOOP_def WCTRL_BIDIRECTIONAL_def
  WCTRL_DECREASING_def word_le_nat_alt word_less_nat_alt

lemma ceil_udivide_0 [simp]: "ceil_udivide 0 y = 0"
  by (simp add: ceil_udivide_def)

lemma myGUS_fresh:
  "myGUS (fresh_card E gusbase dma_val irq_val) =
     (default_GFGus E)
         \<lparr> portbase := gusbase - 0x200, dma1 := dma_val, dma2 := dma_val,
           irq1 := irq_val, irq2 := irq_val, mixControl := 0x0b,
           timer0 := \<lparr> timer_value = 0xff, reached = False, raiseirq = False,
                       masked = False, running = False, delay = fround E (80 / 1000) \<rparr>,
           timer1 := \<lparr> timer_value = 0xff, reached = False, raiseirq = False,
                       masked = False, running = False, delay = fround E (320 / 1000) \<rparr> \<rparr>"
  by (simp add: fresh_card_def)

lemma length_guschan_fresh [simp]: "length (guschan (fresh_card E gusbase dma_val irq_val)) = 32"
  by (simp add: fresh_card_def GUS_MAX_CHANNELS_def del: upt_rec_numeral)

lemma guschan_fresh_nth:
  "i < 32 \<Longrightarrow> guschan (fresh_card E gusbase dma_val irq_val) ! i =
     (new_GUSChannels i)\<lparr> WaveCtrl := 1, RampCtrl := 1 \<rparr>"
  by (simp add: fresh_card_def GUS_MAX_CHANNELS_def del: upt_rec_numeral)

lemma curchan_fresh [simp]: "curchan (fresh_card E gusbase dma_val irq_val) = None"
  by (simp add: fresh_card_def)

lemma GUSRam_fresh [simp]: "GUSRam (fresh_card E gusbase dma_val irq_val) = (\<lambda>a. 0)"
  by (simp add: fresh_card_def)

lemmas fresh_simps = myGUS_fresh guschan_fresh_nth default_GFGus_def new_GUSChannels_def

lemma run_append: "run E (as @ bs) s = bind_res (run E as s) (run E bs)"
  by (induction as arbitrary: s) (simp_all add: bind_res_def split: sum.splits)

lemma card_at_run:
  assumes "run exact_env as (fresh_card exact_env 0x240 3 5) = Inr s"
  shows "card_at as = s" and "reachable exact_env s"
proof -
  show "card_at as = s" using assms by (simp add: card_at_def)
  show "reachable exact_env s" using reachable_fresh assms by (rule reachable_run)
qed

lemma basefreq_of_14: "basefreq_of 14 = 44100"
proof -
  have "\<lfloor>(1 / 2 :: rat) + 1000000 / ((1619695497 / 1000000000) * 14)\<rfloor> = 44100"
    by (simp add: floor_eq_iff)
  then show ?thesis by (simp add: basefreq_of_def)
qed

lemma setup_14_run:
  "\<exists>s. run E setup_14 (fresh_card E 0x240 dma_val irq_val) = Inr s \<and>
     myGUS s = (myGUS (fresh_card E 0x240 dma_val irq_val))
        \<lparr> gRegSelect := 13, gRegData := 0x0D00, ActiveChannels := 14, ActiveMask := 0x3fff,
          basefreq := 44100 \<rparr> \<and>
     guschan s = map UpdateWaveRamp (take 14 (guschan (fresh_card E 0x240 dma_val irq_val)))
                   @ drop 14 (guschan (fresh_card E 0x240 dma_val irq_val)) \<and>
     curchan s = Some 0 \<and> GUSRam s = (\<lambda>a. 0)"
  by (simp add: setup_14_def eval_defs fresh_simps basefreq_of_14)

lemma nth_setup_voices:
  "i < 32 \<Longrightarrow>
   (map UpdateWaveRamp (take 14 (guschan (fresh_card E gusbase dma_val irq_val)))
      @ drop 14 (guschan (fresh_card E gusbase dma_val irq_val))) ! i
   = (new_GUSChannels i)\<lparr> WaveCtrl := 1, RampCtrl := 1 \<rparr>"
  by (simp add: nth_append guschan_fresh_nth UpdateWaveRamp_def WriteWaveFreq_def
      WriteRampRate_def new_GUSChannels_def)

lemma loud_run:
  "\<exists>s. run exact_env loud_setup (fresh_card exact_env 0x240 3 5) = Inr s \<and>
     myGUS s = (myGUS (fresh_card exact_env 0x240 3 5))
        \<lparr> gRegSelect := 0, gRegData := 0, ActiveChannels := 14, ActiveMask := 0x3fff,
          basefreq := 44100 \<rparr> \<and>
     length (guschan s) = 32 \<and>
     guschan s ! 0 = (new_GUSChannels 0)
        \<lparr> WaveCtrl := 0, RampCtrl := 1, CurrentVolIndex := 4095, PanPot := 0,
          WaveFreq := 0x400, WaveAdd := 0x200 \<rparr> \<and>
     (\<forall>i. 0 < i \<and> i < 32 \<longrightarrow> guschan s ! i = (new_GUSChannels i)\<lparr> WaveCtrl := 1, RampCtrl := 1 \<rparr>) \<and>
     GUSRam s = (\<lambda>a. 0)(0 := 0x80)"
proof -
  obtain s where r: "run exact_env setup_14 (fresh_card exact_env 0x240 3 5) = Inr s"
    and g: "myGUS s = (myGUS (fresh_card exact_env 0x240 3 5))
        \<lparr> gRegSelect := 13, gRegData := 0x0D00, ActiveChannels := 14, ActiveMask := 0x3fff,
          basefreq := 44100 \<rparr>"
    and v: "guschan s = map UpdateWaveRamp (take 14 (guschan (fresh_card exact_env 0x240 3 5)))
                   @ drop 14 (guschan (fresh_card exact_env 0x240 3 5))"
    and c: "curchan s = Some 0" and m: "GUSRam s = (\<lambda>a. 0)"
    using setup_14_run [of exact_env 3 5] by blast
  have l: "length (guschan s) = 32" by (simp add: v)
  have n: "guschan s ! i = (new_GUSChannels i)\<lparr> WaveCtrl := 1, RampCtrl := 1 \<rparr>" if "i < 32" for i
    unfolding v using that by (rule nth_setup_voices)
  have c2: "ceil_udivide 1024 2 = 512" by code_simp
  show ?thesis
    unfolding loud_setup_def run_append r
    using n [of 0]
    by (simp add: eval_defs g c m l n myGUS_fresh default_GFGus_def new_GUSChannels_def c2)
qed

lemma peak_same [simp]: "g\<lparr> peak_amplitude := peak_amplitude g \<rparr> = (g :: 'f GFGus)"
  by simp

lemma mix_voices_disabled:
  "(\<forall>v \<in> set vs. RampCtrl v AND WaveCtrl v AND 3 \<noteq> 0) \<Longrightarrow>
   mix_voices E ram len vs acc g = Inr (vs, acc, g)"
  by (induction vs) (simp_all add: generateSamples_disabled)

lemma take_first: "0 < length xs \<Longrightarrow> take (Suc k) xs = xs ! 0 # take k (tl xs)"
  by (cases xs) simp_all

lemma mix_voices_first:
  assumes "Suc k \<le> length xs"
    and "\<forall>i. 0 < i \<and> i < Suc k \<longrightarrow> RampCtrl (xs ! i) AND WaveCtrl (xs ! i) AND 3 \<noteq> 0"
  shows "mix_voices E ram len (take (Suc k) xs) acc g =
     bind_res (generateSamples E ram acc (peak_amplitude g) len (xs ! 0) g)
       (\<lambda>(acc', peak', v', g').
          Inr (v' # take k (tl xs), acc', g'\<lparr> peak_amplitude := peak' \<rparr>))"
proof -
  have ne: "xs \<noteq> []" using assms(1) by (cases xs) simp_all
  have "\<forall>v \<in> set (take k (tl xs)). RampCtrl v AND WaveCtrl v AND 3 \<noteq> 0"
  proof
    fix v assume "v \<in> set (take k (tl xs))"
    then obtain j where j: "j < length (take k (tl xs))" and v: "v = take k (tl xs) ! j"
      by (auto simp add: in_set_conv_nth)
    from j have "j < k" and "j < length (tl xs)" by simp_all
    with v have "v = xs ! Suc j" by (simp add: nth_tl)
    with assms(2) \<open>j < k\<close> show "RampCtrl v AND WaveCtrl v AND 3 \<noteq> 0" by auto
  qed
  then have d: "mix_voices E ram len (take k (tl xs)) a h = Inr (take k (tl xs), a, h)"
    for a h by (rule mix_voices_disabled)
  have tf: "take (Suc k) xs = xs ! 0 # take k (tl xs)" using ne by (cases xs) simp_all
  show ?thesis
    unfolding tf
    by (cases "generateSamples E ram acc (peak_amplitude g) len (xs ! 0) g")
      (auto simp add: d)
qed

lemma sint_80: "sint (0x80 :: 8 word) = - 128"
  by simp

lemma loud_block:
  "map_sum id (\<lambda>(vs, acc, g). (take 1 acc, peak_amplitude g))
     (accumulate exact_env 1 (card_at loud_setup))
   = Inr ([\<lparr> left = - 32768, right = 0 \<rparr>], \<lparr> left = 32768, right = 1 \<rparr>) \<and>
   map_sum id (\<lambda>(out, s'). (out, left (peak_amplitude (myGUS s')) < 32768))
     (GUS_CallBack exact_env 1 (card_at loud_setup))
   = Inr ([(0x8002, 0)], True)"
proof -
  obtain s where r: "run exact_env loud_setup (fresh_card exact_env 0x240 3 5) = Inr s"
    and g: "myGUS s = (myGUS (fresh_card exact_env 0x240 3 5))
        \<lparr> gRegSelect := 0, gRegData := 0, ActiveChannels := 14, ActiveMask := 0x3fff,
          basefreq := 44100 \<rparr>"
    and l: "length (guschan s) = 32"
    and v0: "guschan s ! 0 = (new_GUSChannels 0)
        \<lparr> WaveCtrl := 0, RampCtrl := 1, CurrentVolIndex := 4095, PanPot := 0,
          WaveFreq := 0x400, WaveAdd := 0x200 \<rparr>"
    and vi: "\<forall>i. 0 < i \<and> i < 32 \<longrightarrow> guschan s ! i = (new_GUSChannels i)\<lparr> WaveCtrl := 1, RampCtrl := 1 \<rparr>"
    and m: "GUSRam s = (\<lambda>a. 0)(0 := 0x80)"
    using loud_run by blast
  have c: "card_at loud_setup = s" using r by (rule card_at_run)
  have d: "\<forall>i. 0 < i \<and> i < Suc 13 \<longrightarrow>
             RampCtrl (guschan s ! i) AND WaveCtrl (guschan s ! i) AND 3 \<noteq> 0"
    using vi by (simp add: new_GUSChannels_def)
  have l': "Suc 13 \<le> length (guschan s)" using l by simp
  have mv: "mix_voices exact_env ram len (take 14 (guschan s)) acc h =
     bind_res (generateSamples exact_env ram acc (peak_amplitude h) len (guschan s ! 0) h)
       (\<lambda>(acc', peak', v', g').
          Inr (v' # take 13 (tl (guschan s)), acc', g'\<lparr> peak_amplitude := peak' \<rparr>))"
    for ram len acc h
    using mix_voices_first [OF l' d, of exact_env ram len acc h] by simp
  have n14: "unat (ActiveChannels (myGUS s)) = 14" by (simp add: g)
  have pk: "peak_amplitude (myGUS s) = \<lparr> left = 1, right = 1 \<rparr>"
    by (simp add: g myGUS_fresh default_GFGus_def exact_env_def)
  have irq: "RampIRQ (myGUS s) = 0" "WaveIRQ (myGUS s) = 0"
    by (simp_all add: g myGUS_fresh default_GFGus_def)
  have z: "fround exact_env 0 = 0" by (simp add: exact_env_def)
  define A where "A = (replicate 64 \<lparr> left = 0 :: rat, right = 0 \<rparr>)[0 := \<lparr> left = - 32768, right = 0 \<rparr>]"
  define V where "V = ((guschan s ! 0)\<lparr> WaveAddr := 0, WaveCtrl := 1, generated_8bit_ms := 1 \<rparr>
                        # take 13 (tl (guschan s))) @ drop 14 (guschan s)"
  define G where "G = (myGUS s)\<lparr> peak_amplitude := \<lparr> left = 32768, right = 1 \<rparr> \<rparr>"
  have gs: "generateSamples exact_env (GUSRam s)
              (replicate 64 \<lparr> left = 0, right = 0 \<rparr>) \<lparr> left = 1, right = 1 \<rparr> 1 (guschan s ! 0) (myGUS s)
            = Inr (A, \<lparr> left = 32768, right = 1 \<rparr>,
                   (guschan s ! 0)\<lparr> WaveAddr := 0, WaveCtrl := 1, generated_8bit_ms := 1 \<rparr>,
                   myGUS s)"
    unfolding v0 m A_def
    by (simp add: generateSamples_def generate_frame_def get_sample_def GetSample8_def
        ram_read_def vol_scalar_at_def pan_scalar_at_def WaveUpdate_def RampUpdate_def
        bump_generated_ms_def new_GUSChannels_def exact_env_def exact_pan_def f_of_int_def
        fmax_def eval_defs)
  have acc: "accumulate exact_env 1 s = Inr (V, A, G)"
    unfolding accumulate_def Let_def n14 GUS_BUFFER_FRAMES_def z
    using l by (simp add: mv pk gs [unfolded One_nat_def] V_def G_def)
  have tk: "take 1 A = [\<lparr> left = - 32768, right = 0 \<rparr>]"
    by (simp add: A_def take_update_swap)
  have lim: "SoftLimit exact_env A 1 G =
        Inr (Some [(0x8002, 0)],
             G\<lparr> peak_amplitude := \<lparr> left = 32768 - 32766 * (2709201 / 1000000000), right = 1 \<rparr> \<rparr>)"
    unfolding SoftLimit_def Let_def tk
    by (simp add: G_def A_def max_allowed_def release_amount_def f_of_int_def fmin_def
        exact_env_def exact_to_i16_def GUS_VOLUME_SCALE_DIV_def)
  have chk: "CheckVoiceIrq (G\<lparr> peak_amplitude := p \<rparr>)
               = Inr (G\<lparr> peak_amplitude := p, IRQStatus := IRQStatus G AND 0x9f \<rparr>)" for p
    using irq by (simp add: CheckVoiceIrq_def Let_def G_def)
  have cb: "GUS_CallBack exact_env 1 s =
        Inr ([(0x8002, 0)],
             s\<lparr> myGUS := G\<lparr> peak_amplitude :=
                              \<lparr> left = 32768 - 32766 * (2709201 / 1000000000), right = 1 \<rparr>,
                            IRQStatus := IRQStatus G AND 0x9f \<rparr>,
                guschan := V \<rparr>)"
    by (simp add: GUS_CallBack_def acc [unfolded One_nat_def] emit_block_def
        lim [unfolded One_nat_def] chk)
  show ?thesis
    unfolding c acc cb by (simp add: tk [unfolded One_nat_def] G_def)
qed

subsection \<open>The number of active voices\<close>

text \<open>
  Claim C5, the part that fails: the card as constructed is a reachable state, and its
  active-voice count is 0 (the member initialiser \<^verbatim>\<open>ActiveChannels = 0u\<close>; neither the
  constructor nor \<^verbatim>\<open>GUSReset\<close> assigns it), not a value between 14 and 32.
\<close>

theorem C5_counterexample:
  "GUS_init exact_env 0x240 3 5 = Inr (fresh_card exact_env 0x240 3 5) \<and>
   reachable exact_env (fresh_card exact_env 0x240 3 5) \<and>
   ActiveChannels (myGUS (fresh_card exact_env 0x240 3 5)) = 0"
  using GUS_init_fresh [of exact_env "0x240" 3 5] reachable_fresh [of exact_env "0x240" 3 5]
  by (simp add: fresh_card_def default_GFGus_def)

text \<open>
  Claim C5, as it holds: at every reachable state the active-voice count is 0 (the card
  before the first write to register 0x0E) or lies between 14 and 32, and in both cases
  \<^verbatim>\<open>ActiveMask\<close> has exactly the low \<^verbatim>\<open>ActiveChannels\<close> bits set. Once the count lies
  between 14 and 32 it stays there across every host write, host read, mix callback and
  timer event, and every write to register 0x0E puts it there.
\<close>

theorem C5_active_voices:
  assumes "reachable E s"
  shows "(ActiveChannels (myGUS s) = 0 \<or>
            (14 \<le> unat (ActiveChannels (myGUS s)) \<and> unat (ActiveChannels (myGUS s)) \<le> 32)) \<and>
         (\<forall>i. bit (ActiveMask (myGUS s)) i \<longleftrightarrow> i < unat (ActiveChannels (myGUS s))) \<and>
         (\<forall>a s'. 14 \<le> unat (ActiveChannels (myGUS s)) \<longrightarrow> step E a s = Inr s' \<longrightarrow>
            14 \<le> unat (ActiveChannels (myGUS s')) \<and> unat (ActiveChannels (myGUS s')) \<le> 32) \<and>
         (\<forall>d s'. gRegSelect (myGUS s) = 0x0E \<longrightarrow>
            write_gus E (portbase (myGUS s) + 0x304) d 2 s = Inr s' \<longrightarrow>
            14 \<le> unat (ActiveChannels (myGUS s')) \<and> unat (ActiveChannels (myGUS s')) \<le> 32)"
proof -
  from assms have ok: "card_ok True s" by (rule reachable_card_ok)
  then have a: "active_ok True (myGUS s)" by (simp add: card_ok_def gus_wf_def)
  have one: "ActiveChannels (myGUS s) = 0 \<or>
            (14 \<le> unat (ActiveChannels (myGUS s)) \<and> unat (ActiveChannels (myGUS s)) \<le> 32)"
    using a by (auto simp add: active_ok_def)
  have two: "bit (ActiveMask (myGUS s)) i \<longleftrightarrow> i < unat (ActiveChannels (myGUS s))" for i
    using a active_mask_bits [of "unat (ActiveChannels (myGUS s))" i]
    by (auto simp add: active_ok_def)
  have three: "14 \<le> unat (ActiveChannels (myGUS s')) \<and> unat (ActiveChannels (myGUS s')) \<le> 32"
    if "14 \<le> unat (ActiveChannels (myGUS s))" and "step E a s = Inr s'" for a s'
  proof -
    from ok that(1) have "card_ok False s"
      by (auto simp add: card_ok_def gus_wf_def active_ok_def)
    with that(2) have "card_ok False s'" by (rule step_ok)
    then show ?thesis by (simp add: card_ok_def gus_wf_def active_ok_def)
  qed
  have four: "14 \<le> unat (ActiveChannels (myGUS s')) \<and> unat (ActiveChannels (myGUS s')) \<le> 32"
    if "gRegSelect (myGUS s) = 0x0E"
      and "write_gus E (portbase (myGUS s) + 0x304) d 2 s = Inr s'" for d s'
    using that set_active_channels_range
    by (auto simp add: write_gus_def ExecuteGlobRegister_def Let_def)
  from one two three four show ?thesis by blast
qed

text \<open>
  The theorem at the card with 14 voices activated: the count is 14 and the mask has the
  low 14 bits; selecting register 0x0E is a step that keeps the count, and writing 0x0D00
  to it through the 16-bit data port leaves 14 voices active.
\<close>

theorem C5_witness:
  "reachable exact_env (card_at setup_14) \<and>
   unat (ActiveChannels (myGUS (card_at setup_14))) = 14 \<and>
   (\<forall>i. bit (ActiveMask (myGUS (card_at setup_14))) i \<longleftrightarrow> i < 14) \<and>
   (\<exists>s1. step exact_env (Write 0x343 0x0E 1) (card_at setup_14) = Inr s1 \<and>
      reachable exact_env s1 \<and> gRegSelect (myGUS s1) = 0x0E \<and>
      14 \<le> unat (ActiveChannels (myGUS s1)) \<and> unat (ActiveChannels (myGUS s1)) \<le> 32 \<and>
      (\<exists>s2. write_gus exact_env (portbase (myGUS s1) + 0x304) 0x0D00 2 s1 = Inr s2 \<and>
         14 \<le> unat (ActiveChannels (myGUS s2)) \<and> unat (ActiveChannels (myGUS s2)) \<le> 32))"
proof -
  obtain s where r: "run exact_env setup_14 (fresh_card exact_env 0x240 3 5) = Inr s"
    and g: "myGUS s = (myGUS (fresh_card exact_env 0x240 3 5))
        \<lparr> gRegSelect := 13, gRegData := 0x0D00, ActiveChannels := 14, ActiveMask := 0x3fff,
          basefreq := 44100 \<rparr>"
    and v: "guschan s = map UpdateWaveRamp (take 14 (guschan (fresh_card exact_env 0x240 3 5)))
                   @ drop 14 (guschan (fresh_card exact_env 0x240 3 5))"
    using setup_14_run [of exact_env 3 5] by blast
  have c: "card_at setup_14 = s" and re: "reachable exact_env s"
    using card_at_run [OF r] by simp_all
  have n: "unat (ActiveChannels (myGUS s)) = 14" by (simp add: g)
  have l: "length (guschan s) = 32" by (simp add: v)
  define s1 where "s1 = s\<lparr> myGUS := (myGUS s)\<lparr> gRegSelect := 0x0E, gRegData := 0 \<rparr> \<rparr>"
  have st: "step exact_env (Write 0x343 0x0E 1) s = Inr s1"
    by (simp add: s1_def eval_defs g myGUS_fresh default_GFGus_def)
  from re st have re1: "reachable exact_env s1" by (rule reachable_step)
  have sel: "gRegSelect (myGUS s1) = 0x0E" by (simp add: s1_def)
  have "\<exists>s2. write_gus exact_env (0x344) 0x0D00 2 s1 = Inr s2"
    using l by (simp add: s1_def eval_defs g myGUS_fresh default_GFGus_def)
  moreover have pb: "portbase (myGUS s1) + 0x304 = 0x344"
    by (simp add: s1_def g myGUS_fresh default_GFGus_def)
  ultimately obtain s2 where
    w: "write_gus exact_env (portbase (myGUS s1) + 0x304) 0x0D00 2 s1 = Inr s2" by auto
  from C5_active_voices [OF re] n st
  have a: "(\<forall>i. bit (ActiveMask (myGUS s)) i \<longleftrightarrow> i < 14) \<and>
           14 \<le> unat (ActiveChannels (myGUS s1)) \<and> unat (ActiveChannels (myGUS s1)) \<le> 32"
    by simp
  from C5_active_voices [OF re1] sel w
  have b: "14 \<le> unat (ActiveChannels (myGUS s2)) \<and> unat (ActiveChannels (myGUS s2)) \<le> 32"
    by blast
  from re n a st re1 sel w b show ?thesis unfolding c by blast
qed

subsection \<open>The interrupt status register 0x8f\<close>

lemma drain_from_32:
  assumes "gRegSelect (myGUS s) = 0x8f" and "p - portbase (myGUS s) = 0x305"
    and "gus_wf z (myGUS s)" and "32 \<le> n"
  shows "\<exists>s'. run E (replicate n (Read p 1)) s = Inr s' \<and> IRQStatus (myGUS s') AND 0x60 = 0"
proof -
  from step_read_8f [OF assms(1,2,3), of E] obtain s1 where
    st: "step E (Read p 1) s = Inr s1"
    and s1: "gRegSelect (myGUS s1) = 0x8f" "p - portbase (myGUS s1) = 0x305"
      "gus_wf z (myGUS s1)" "cursor_ok (myGUS s1)"
    and pe: "pending (myGUS s1) = pending (myGUS s) AND NOT (2 ^ unat (IRQChan (myGUS s)))"
    by blast
  from assms(3) have c: "unat (IRQChan (myGUS s)) < 32" by (simp add: gus_wf_def)
  have "pending_count (myGUS s1) \<le> 31"
  proof (cases "bit (pending (myGUS s)) (unat (IRQChan (myGUS s)))")
    case True
    from pending_count_read(2) [OF pe True] bits_card_le [of "pending (myGUS s)"]
    show ?thesis by (simp add: pending_count_def)
  next
    case False
    from pending_count_read(3) [OF pe False c] show ?thesis .
  qed
  with assms(4) have "pending_count (myGUS s1) \<le> n - 1" by simp
  from drain_settled [OF s1 this, of E] obtain s' where
    "run E (replicate (n - 1) (Read p 1)) s1 = Inr s'" and "IRQStatus (myGUS s') AND 0x60 = 0"
    by blast
  moreover have "replicate n (Read p 1) = Read p 1 # replicate (n - 1) (Read p 1)"
    using assms(4) by (cases n) simp_all
  ultimately show ?thesis using st by simp
qed

lemma irq_run:
  "\<exists>s. run exact_env irq_setup (fresh_card exact_env 0x240 3 5) = Inr s \<and>
     portbase (myGUS s) = 0x40 \<and> gRegSelect (myGUS s) = 0x8f \<and>
     WaveIRQ (myGUS s) = 1 \<and> RampIRQ (myGUS s) = 0 \<and> IRQChan (myGUS s) = 0 \<and>
     IRQStatus (myGUS s) = 0x20"
proof -
  obtain s where r: "run exact_env setup_14 (fresh_card exact_env 0x240 3 5) = Inr s"
    and g: "myGUS s = (myGUS (fresh_card exact_env 0x240 3 5))
        \<lparr> gRegSelect := 13, gRegData := 0x0D00, ActiveChannels := 14, ActiveMask := 0x3fff,
          basefreq := 44100 \<rparr>"
    and v: "guschan s = map UpdateWaveRamp (take 14 (guschan (fresh_card exact_env 0x240 3 5)))
                   @ drop 14 (guschan (fresh_card exact_env 0x240 3 5))"
    and c: "curchan s = Some 0" and m: "GUSRam s = (\<lambda>a. 0)"
    using setup_14_run [of exact_env 3 5] by blast
  have l: "length (guschan s) = 32" by (simp add: v)
  have n: "guschan s ! i = (new_GUSChannels i)\<lparr> WaveCtrl := 1, RampCtrl := 1 \<rparr>" if "i < 32" for i
    unfolding v using that by (rule nth_setup_voices)
  show ?thesis
    unfolding irq_setup_def run_append r
    using n [of 0]
    by (simp add: eval_defs g c m l myGUS_fresh default_GFGus_def new_GUSChannels_def
        irq_scan_unfold)
qed

text \<open>
  Claim C8: at a reachable state with register 0x8f selected, a read of the data port
  (base + 0x305) succeeds; it clears the bit of voice \<^verbatim>\<open>IRQChan\<close> in \<^verbatim>\<open>WaveIRQ\<close> and in
  \<^verbatim>\<open>RampIRQ\<close>, and the registers it leaves are those of \<^verbatim>\<open>CheckVoiceIrq\<close> run on the
  cleared bitmaps; register 0x8f stays selected, so the read can be repeated. With nothing
  between the reads, 32 of them or more leave bits 5 and 6 of \<^verbatim>\<open>IRQStatus\<close> clear.
\<close>

theorem C8_irq_drain:
  assumes "reachable E s" and "gRegSelect (myGUS s) = 0x8f"
  shows "(\<exists>s1. step E (Read (portbase (myGUS s) + 0x305) 1) s = Inr s1 \<and>
            gRegSelect (myGUS s1) = 0x8f \<and> portbase (myGUS s1) = portbase (myGUS s) \<and>
            WaveIRQ (myGUS s1) = WaveIRQ (myGUS s) AND NOT (push_bit (unat (IRQChan (myGUS s))) 1) \<and>
            RampIRQ (myGUS s1) = RampIRQ (myGUS s) AND NOT (push_bit (unat (IRQChan (myGUS s))) 1) \<and>
            CheckVoiceIrq ((myGUS s)
              \<lparr> RampIRQ := RampIRQ (myGUS s) AND NOT (push_bit (unat (IRQChan (myGUS s))) 1),
                WaveIRQ := WaveIRQ (myGUS s) AND NOT (push_bit (unat (IRQChan (myGUS s))) 1) \<rparr>)
              = Inr (myGUS s1)) \<and>
         (\<forall>n. 32 \<le> n \<longrightarrow>
            (\<exists>s'. run E (replicate n (Read (portbase (myGUS s) + 0x305) 1)) s = Inr s' \<and>
                  IRQStatus (myGUS s') AND 0x60 = 0))"
proof -
  let ?g = "myGUS s"
  let ?p = "portbase ?g + 0x305"
  let ?m = "(2 :: 32 word) ^ unat (IRQChan ?g)"
  from assms(1) have "card_ok True s" by (rule reachable_card_ok)
  then have wf: "gus_wf True ?g" by (simp add: card_ok_def)
  then have c: "unat (IRQChan ?g) < 32" by (simp add: gus_wf_def)
  have p: "?p - portbase ?g = 0x305" by simp
  from read_8f_regs [OF wf] obtain g' where
    k: "CheckVoiceIrq (?g\<lparr> RampIRQ := RampIRQ ?g AND NOT ?m, WaveIRQ := WaveIRQ ?g AND NOT ?m \<rparr>)
        = Inr g'"
    and g': "gRegSelect g' = gRegSelect ?g" "portbase g' = portbase ?g"
      "RampIRQ g' = RampIRQ ?g AND NOT ?m" "WaveIRQ g' = WaveIRQ ?g AND NOT ?m"
    by blast
  have "step E (Read ?p 1) s = Inr (s\<lparr> myGUS := g' \<rparr>)"
    using assms(2) c k
    by (simp add: step_def read_gus_def ExecuteReadRegister_def Let_def)
  with k g' assms(2) have one: "\<exists>s1. step E (Read ?p 1) s = Inr s1 \<and>
            gRegSelect (myGUS s1) = 0x8f \<and> portbase (myGUS s1) = portbase ?g \<and>
            WaveIRQ (myGUS s1) = WaveIRQ ?g AND NOT ?m \<and>
            RampIRQ (myGUS s1) = RampIRQ ?g AND NOT ?m \<and>
            CheckVoiceIrq (?g\<lparr> RampIRQ := RampIRQ ?g AND NOT ?m,
                              WaveIRQ := WaveIRQ ?g AND NOT ?m \<rparr>) = Inr (myGUS s1)"
    by (intro exI [of _ "s\<lparr> myGUS := g' \<rparr>"]) simp
  have two: "\<exists>s'. run E (replicate n (Read ?p 1)) s = Inr s' \<and> IRQStatus (myGUS s') AND 0x60 = 0"
    if "32 \<le> n" for n
    using assms(2) p wf that by (rule drain_from_32)
  from one two show ?thesis by simp
qed

text \<open>
  The theorem at the card whose voice 0 has just raised its wave interrupt (wave control
  written with 0xA3): bit 5 of the status is set; one read of port 0x345 clears the
  interrupt of voice 0, and 32 reads leave bits 5 and 6 clear.
\<close>

theorem C8_witness:
  "reachable exact_env (card_at irq_setup) \<and>
   gRegSelect (myGUS (card_at irq_setup)) = 0x8f \<and>
   WaveIRQ (myGUS (card_at irq_setup)) = 1 \<and>
   IRQStatus (myGUS (card_at irq_setup)) AND 0x60 = 0x20 \<and>
   (\<exists>s1. step exact_env (Read 0x345 1) (card_at irq_setup) = Inr s1 \<and> WaveIRQ (myGUS s1) = 0) \<and>
   (\<exists>s'. run exact_env (replicate 32 (Read 0x345 1)) (card_at irq_setup) = Inr s' \<and>
         IRQStatus (myGUS s') AND 0x60 = 0)"
proof -
  obtain s where r: "run exact_env irq_setup (fresh_card exact_env 0x240 3 5) = Inr s"
    and g: "portbase (myGUS s) = 0x40" "gRegSelect (myGUS s) = 0x8f"
      "WaveIRQ (myGUS s) = 1" "RampIRQ (myGUS s) = 0" "IRQChan (myGUS s) = 0"
      "IRQStatus (myGUS s) = 0x20"
    using irq_run by blast
  have c: "card_at irq_setup = s" and re: "reachable exact_env s"
    using card_at_run [OF r] by simp_all
  from C8_irq_drain [OF re g(2)] g
  have "(\<exists>s1. step exact_env (Read 0x345 1) s = Inr s1 \<and> WaveIRQ (myGUS s1) = 0) \<and>
        (\<exists>s'. run exact_env (replicate 32 (Read 0x345 1)) s = Inr s' \<and>
              IRQStatus (myGUS s') AND 0x60 = 0)"
    by auto
  with re g show ?thesis unfolding c by simp
qed

subsection \<open>The soft limiter\<close>

lemma CheckVoiceIrq_peak:
  "CheckVoiceIrq g = Inr g' \<Longrightarrow> peak_amplitude g' = peak_amplitude g"
  by (erule CheckVoiceIrq_Inr) simp

lemma SoftLimit_below:
  "fless E (left (peak_amplitude g)) (max_allowed E) \<Longrightarrow>
   fless E (right (peak_amplitude g)) (max_allowed E) \<Longrightarrow>
   SoftLimit E acc len g = Inr (None, g)"
  by (simp add: SoftLimit_def Let_def)

lemma GUS_CallBack_unlimited:
  assumes "accumulate E len s = Inr (vs, acc, g)"
    and "fless E (left (peak_amplitude g)) (max_allowed E)"
    and "fless E (right (peak_amplitude g)) (max_allowed E)"
  shows "GUS_CallBack E len s =
           bind_res (if len \<le> length acc then to_i16_frames E (take len acc) else Inl OutOfBounds)
             (\<lambda>out. bind_res (CheckVoiceIrq g)
               (\<lambda>g'. Inr (out, s\<lparr> myGUS := g', guschan := vs \<rparr>)))"
  by (simp add: GUS_CallBack_def assms(1) emit_block_def SoftLimit_below [OF assms(2,3)]
      bind_res_def split: sum.splits)

lemma setup_14_block:
  "\<exists>s. card_at setup_14 = s \<and>
     accumulate exact_env 1 s = Inr (guschan s, replicate 64 \<lparr> left = 0, right = 0 \<rparr>, myGUS s) \<and>
     peak_amplitude (myGUS s) = \<lparr> left = 1, right = 1 \<rparr> \<and>
     CheckVoiceIrq (myGUS s) = Inr (myGUS s)"
proof -
  obtain s where r: "run exact_env setup_14 (fresh_card exact_env 0x240 3 5) = Inr s"
    and g: "myGUS s = (myGUS (fresh_card exact_env 0x240 3 5))
        \<lparr> gRegSelect := 13, gRegData := 0x0D00, ActiveChannels := 14, ActiveMask := 0x3fff,
          basefreq := 44100 \<rparr>"
    and v: "guschan s = map UpdateWaveRamp (take 14 (guschan (fresh_card exact_env 0x240 3 5)))
                   @ drop 14 (guschan (fresh_card exact_env 0x240 3 5))"
    using setup_14_run [of exact_env 3 5] by blast
  have c: "card_at setup_14 = s" using r by (rule card_at_run)
  have l: "length (guschan s) = 32" by (simp add: v)
  have n: "guschan s ! i = (new_GUSChannels i)\<lparr> WaveCtrl := 1, RampCtrl := 1 \<rparr>" if "i < 32" for i
    unfolding v using that by (rule nth_setup_voices)
  have "\<forall>v \<in> set (take 14 (guschan s)). RampCtrl v AND WaveCtrl v AND 3 \<noteq> 0"
  proof
    fix v assume "v \<in> set (take 14 (guschan s))"
    then obtain j where "j < length (take 14 (guschan s))" and "v = take 14 (guschan s) ! j"
      by (auto simp add: in_set_conv_nth)
    with l have "j < 32" and "v = guschan s ! j" by simp_all
    with n [of j] show "RampCtrl v AND WaveCtrl v AND 3 \<noteq> 0" by simp
  qed
  then have mv: "mix_voices exact_env ram len (take 14 (guschan s)) acc h
                 = Inr (take 14 (guschan s), acc, h)" for ram len acc h
    by (rule mix_voices_disabled)
  have n14: "unat (ActiveChannels (myGUS s)) = 14" by (simp add: g)
  have z: "fround exact_env 0 = 0" by (simp add: exact_env_def)
  have acc: "accumulate exact_env 1 s
             = Inr (guschan s, replicate 64 \<lparr> left = 0, right = 0 \<rparr>, myGUS s)"
    unfolding accumulate_def Let_def n14 GUS_BUFFER_FRAMES_def z
    using l by (simp add: mv)
  have pk: "peak_amplitude (myGUS s) = \<lparr> left = 1, right = 1 \<rparr>"
    by (simp add: g myGUS_fresh default_GFGus_def exact_env_def)
  have chk: "CheckVoiceIrq (myGUS s) = Inr (myGUS s)"
    by (simp add: CheckVoiceIrq_def Let_def g myGUS_fresh default_GFGus_def)
  from c acc pk chk show ?thesis by blast
qed

text \<open>
  Claim C4, the part that fails: a block whose peaks are 1 and 1 when the callback starts,
  far below 32766. Voice 0 plays the sample \<open>- 32768\<close> hard left, which raises the left
  peak to 32768 while the block is accumulated, so the limiter that runs afterwards
  scales the block: the first accumulator frame \<open>(- 32768, 0)\<close>, which plain truncation
  converts to \<open>(0x8000, 0)\<close>, is emitted as \<open>(0x8002, 0)\<close>, that is \<open>- 32766\<close>, and the
  left peak is released below 32768.
\<close>

theorem C4_counterexample:
  "peak_amplitude (myGUS (card_at loud_setup)) = \<lparr> left = 1, right = 1 \<rparr> \<and>
   fless exact_env 1 (max_allowed exact_env) \<and>
   map_sum id (\<lambda>(vs, acc, g). (take 1 acc, peak_amplitude g))
     (accumulate exact_env 1 (card_at loud_setup))
   = Inr ([\<lparr> left = - 32768, right = 0 \<rparr>], \<lparr> left = 32768, right = 1 \<rparr>) \<and>
   to_i16_frames exact_env [\<lparr> left = - 32768, right = 0 \<rparr>] = Inr [(0x8000, 0)] \<and>
   map_sum id (\<lambda>(out, s'). (out, left (peak_amplitude (myGUS s')) < 32768))
     (GUS_CallBack exact_env 1 (card_at loud_setup))
   = Inr ([(0x8002, 0)], True)"
proof -
  obtain s where r: "run exact_env loud_setup (fresh_card exact_env 0x240 3 5) = Inr s"
    and g: "myGUS s = (myGUS (fresh_card exact_env 0x240 3 5))
        \<lparr> gRegSelect := 0, gRegData := 0, ActiveChannels := 14, ActiveMask := 0x3fff,
          basefreq := 44100 \<rparr>"
    using loud_run by blast
  have c: "card_at loud_setup = s" using r by (rule card_at_run)
  have "peak_amplitude (myGUS (card_at loud_setup)) = \<lparr> left = 1, right = 1 \<rparr>"
    unfolding c by (simp add: g myGUS_fresh default_GFGus_def exact_env_def)
  moreover have "fless exact_env 1 (max_allowed exact_env)"
    by (simp add: max_allowed_def f_of_int_def exact_env_def)
  moreover have "to_i16_frames exact_env [\<lparr> left = - 32768, right = 0 \<rparr>] = Inr [(0x8000, 0)]"
    by (simp add: exact_env_def exact_to_i16_def)
  ultimately show ?thesis using loud_block by simp
qed

text \<open>
  Claim C4, as it holds: the limiter looks at the peaks as the voices of the block leave
  them. If, after the block is accumulated, both peaks are below \<open>INT16_MAX - 1\<close>, then
  \<^verbatim>\<open>SoftLimit\<close> returns \<^verbatim>\<open>false\<close> and changes nothing, the callback emits the plain
  conversion of the first \<^verbatim>\<open>len\<close> accumulator frames, and the peaks after the callback
  are the peaks after the accumulation.
\<close>

theorem C4_soft_limit:
  assumes "accumulate E len s = Inr (vs, acc, g)"
    and "fless E (left (peak_amplitude g)) (max_allowed E)"
    and "fless E (right (peak_amplitude g)) (max_allowed E)"
  shows "SoftLimit E acc len g = Inr (None, g) \<and>
         GUS_CallBack E len s =
           bind_res (if len \<le> length acc then to_i16_frames E (take len acc) else Inl OutOfBounds)
             (\<lambda>out. bind_res (CheckVoiceIrq g)
               (\<lambda>g'. Inr (out, s\<lparr> myGUS := g', guschan := vs \<rparr>))) \<and>
         (\<forall>out s'. GUS_CallBack E len s = Inr (out, s') \<longrightarrow>
            to_i16_frames E (take len acc) = Inr out \<and>
            peak_amplitude (myGUS s') = peak_amplitude g)"
proof -
  have lim: "SoftLimit E acc len g = Inr (None, g)"
    using assms(2,3) by (rule SoftLimit_below)
  have cb: "GUS_CallBack E len s =
           bind_res (if len \<le> length acc then to_i16_frames E (take len acc) else Inl OutOfBounds)
             (\<lambda>out. bind_res (CheckVoiceIrq g)
               (\<lambda>g'. Inr (out, s\<lparr> myGUS := g', guschan := vs \<rparr>)))"
    using assms by (rule GUS_CallBack_unlimited)
  have "to_i16_frames E (take len acc) = Inr out \<and> peak_amplitude (myGUS s') = peak_amplitude g"
    if "GUS_CallBack E len s = Inr (out, s')" for out s'
    using that unfolding cb
    by (auto simp add: bind_res_eq_Inr split: if_splits dest: CheckVoiceIrq_peak)
  with lim cb show ?thesis by blast
qed

text \<open>
  The theorem at the card with 14 voices activated and none playing: the accumulator
  stays 0, the peaks stay 1, and the callback emits the frame \<open>(0, 0)\<close>.
\<close>

theorem C4_witness:
  "accumulate exact_env 1 (card_at setup_14)
     = Inr (guschan (card_at setup_14), replicate 64 \<lparr> left = 0, right = 0 \<rparr>,
            myGUS (card_at setup_14)) \<and>
   fless exact_env (left (peak_amplitude (myGUS (card_at setup_14)))) (max_allowed exact_env) \<and>
   fless exact_env (right (peak_amplitude (myGUS (card_at setup_14)))) (max_allowed exact_env) \<and>
   SoftLimit exact_env (replicate 64 \<lparr> left = 0, right = 0 \<rparr>) 1 (myGUS (card_at setup_14))
     = Inr (None, myGUS (card_at setup_14)) \<and>
   GUS_CallBack exact_env 1 (card_at setup_14) = Inr ([(0, 0)], card_at setup_14) \<and>
   peak_amplitude (myGUS (card_at setup_14)) = \<lparr> left = 1, right = 1 \<rparr>"
proof -
  obtain s where c: "card_at setup_14 = s"
    and acc: "accumulate exact_env 1 s
              = Inr (guschan s, replicate 64 \<lparr> left = 0, right = 0 \<rparr>, myGUS s)"
    and pk: "peak_amplitude (myGUS s) = \<lparr> left = 1, right = 1 \<rparr>"
    and chk: "CheckVoiceIrq (myGUS s) = Inr (myGUS s)"
    using setup_14_block by blast
  have fl: "fless exact_env (left (peak_amplitude (myGUS s))) (max_allowed exact_env)"
    and fr: "fless exact_env (right (peak_amplitude (myGUS s))) (max_allowed exact_env)"
    by (simp_all add: pk max_allowed_def f_of_int_def exact_env_def)
  note th = C4_soft_limit [OF acc fl fr]
  from th have lim: "SoftLimit exact_env (replicate 64 \<lparr> left = 0, right = 0 \<rparr>) 1 (myGUS s)
                     = Inr (None, myGUS s)"
    by (rule conjunct1)
  from th have cbq: "GUS_CallBack exact_env 1 s =
      bind_res (if 1 \<le> length (replicate 64 \<lparr> left = 0 :: rat, right = 0 \<rparr>)
                then to_i16_frames exact_env (take 1 (replicate 64 \<lparr> left = 0, right = 0 \<rparr>))
                else Inl OutOfBounds)
        (\<lambda>out. bind_res (CheckVoiceIrq (myGUS s))
          (\<lambda>g'. Inr (out, s\<lparr> myGUS := g', guschan := guschan s \<rparr>)))"
    by (rule conjunct1 [OF conjunct2])
  have t: "to_i16_frames exact_env (take 1 (replicate 64 \<lparr> left = 0, right = 0 \<rparr>)) = Inr [(0, 0)]"
    by (simp add: exact_env_def exact_to_i16_def)
  have "GUS_CallBack exact_env 1 s = Inr ([(0, 0)], s)"
    unfolding cbq t chk by simp
  note cb = this
  from acc fl fr lim cb pk show ?thesis unfolding c by (intro conjI)
qed

subsection \<open>The 8-bit sampler\<close>

lemma unat_drop9: "unat (drop_bit 9 (w :: 32 word)) = unat w div 512"
  by (simp add: drop_bit_eq_div unat_div)

lemma base_bound: "unat (w :: 32 word) div 512 < 8388608"
  using unsigned_less [of w, where 'a = nat] by simp

lemma next_addr:
  "unat ((drop_bit 9 (w :: 32 word) + 1) AND 0xFFFFF) = (unat w div 512 + 1) mod 1048576"
proof -
  have m: "(0xFFFFF :: 32 word) = mask 20"
    by (simp add: mask_eq_exp_minus_1)
  have s: "unat (drop_bit 9 w + 1) = unat w div 512 + 1"
    using base_bound [of w] by (simp add: unat_word_ariths unat_drop9)
  have "unat (take_bit 20 (drop_bit 9 w + 1)) = take_bit 20 (unat (drop_bit 9 w + 1))"
    by (rule unsigned_take_bit_eq)
  also have "\<dots> = unat (drop_bit 9 w + 1) mod 2 ^ 20" by (rule take_bit_eq_mod)
  finally show ?thesis unfolding m s take_bit_eq_mask by simp
qed

lemma fract_part: "uint ((w :: 32 word) AND 0x1FF) = int (unat w mod 512)"
proof -
  have m: "(0x1FF :: 32 word) = mask 9"
    by (simp add: mask_eq_exp_minus_1)
  have "uint (take_bit 9 w) = take_bit 9 (uint w)" by (rule unsigned_take_bit_eq)
  also have "\<dots> = uint w mod 2 ^ 9" by (rule take_bit_eq_mod)
  finally show ?thesis unfolding m take_bit_eq_mask by (simp add: zmod_int)
qed

lemma wave_add_small: "(a :: 32 word) < 512 \<longleftrightarrow> unat a < 512"
  by (simp add: word_less_nat_alt)

lemma GetSample8_exact:
  "GetSample8 exact_env ram v =
     (if unat (WaveAddr v) div 2 ^ 9 < 2 ^ 20 then Inr (spec_sampler8 ram v) else Inl OutOfBounds)"
  by (simp add: GetSample8_def spec_sampler8_def Let_def ram_read_def unat_drop9 next_addr
      fract_part wave_add_small GUS_RAM_SIZE_def WAVE_FRACT_def WAVE_FRACT_MASK_def
      exact_env_def f_of_int_def)

lemma past_end_writes_run:
  "\<exists>s. run exact_env past_end_writes (fresh_card exact_env 0x240 3 5) = Inr s \<and>
     myGUS s = (myGUS (fresh_card exact_env 0x240 3 5))
        \<lparr> gRegSelect := 0, gRegData := 0, ActiveChannels := 14, ActiveMask := 0x3fff,
          basefreq := 44100 \<rparr> \<and>
     length (guschan s) = 32 \<and>
     guschan s ! 0 = (new_GUSChannels 0)
        \<lparr> WaveCtrl := 0, RampCtrl := 7, WaveAddr := 0x1FFFFFFF, WaveFreq := 2, WaveAdd := 1 \<rparr> \<and>
     (\<forall>i. 0 < i \<and> i < 32 \<longrightarrow> guschan s ! i = (new_GUSChannels i)\<lparr> WaveCtrl := 1, RampCtrl := 1 \<rparr>) \<and>
     GUSRam s = (\<lambda>a. 0)"
proof -
  obtain s where r: "run exact_env setup_14 (fresh_card exact_env 0x240 3 5) = Inr s"
    and g: "myGUS s = (myGUS (fresh_card exact_env 0x240 3 5))
        \<lparr> gRegSelect := 13, gRegData := 0x0D00, ActiveChannels := 14, ActiveMask := 0x3fff,
          basefreq := 44100 \<rparr>"
    and v: "guschan s = map UpdateWaveRamp (take 14 (guschan (fresh_card exact_env 0x240 3 5)))
                   @ drop 14 (guschan (fresh_card exact_env 0x240 3 5))"
    and c: "curchan s = Some 0" and m: "GUSRam s = (\<lambda>a. 0)"
    using setup_14_run [of exact_env 3 5] by blast
  have l: "length (guschan s) = 32" by (simp add: v)
  have n: "guschan s ! i = (new_GUSChannels i)\<lparr> WaveCtrl := 1, RampCtrl := 1 \<rparr>" if "i < 32" for i
    unfolding v using that by (rule nth_setup_voices)
  have c2: "ceil_udivide 2 2 = 1" by code_simp
  show ?thesis
    unfolding past_end_writes_def run_append r
    using n [of 0]
    by (simp add: eval_defs g c m l n myGUS_fresh default_GFGus_def new_GUSChannels_def c2)
qed


lemma first_update: "xs \<noteq> [] \<Longrightarrow> (v # take k (tl xs)) @ drop (Suc k) xs = xs[0 := v]"
  by (cases xs) simp_all

lemma past_end_run:
  "\<exists>s. run exact_env past_end_setup (fresh_card exact_env 0x240 3 5) = Inr s \<and>
     unat (ActiveChannels (myGUS s)) = 14 \<and> length (guschan s) = 32 \<and>
     guschan s ! 0 = (new_GUSChannels 0)
        \<lparr> WaveCtrl := 0, RampCtrl := 7, WaveAddr := 0x20000000, WaveFreq := 2, WaveAdd := 1,
          generated_8bit_ms := 1 \<rparr> \<and>
     (\<forall>i. 0 < i \<and> i < 32 \<longrightarrow> guschan s ! i = (new_GUSChannels i)\<lparr> WaveCtrl := 1, RampCtrl := 1 \<rparr>) \<and>
     GUSRam s = (\<lambda>a. 0)"
proof -
  obtain s where r: "run exact_env past_end_writes (fresh_card exact_env 0x240 3 5) = Inr s"
    and g: "myGUS s = (myGUS (fresh_card exact_env 0x240 3 5))
        \<lparr> gRegSelect := 0, gRegData := 0, ActiveChannels := 14, ActiveMask := 0x3fff,
          basefreq := 44100 \<rparr>"
    and l: "length (guschan s) = 32"
    and v0: "guschan s ! 0 = (new_GUSChannels 0)
        \<lparr> WaveCtrl := 0, RampCtrl := 7, WaveAddr := 0x1FFFFFFF, WaveFreq := 2, WaveAdd := 1 \<rparr>"
    and vi: "\<forall>i. 0 < i \<and> i < 32 \<longrightarrow> guschan s ! i = (new_GUSChannels i)\<lparr> WaveCtrl := 1, RampCtrl := 1 \<rparr>"
    and m: "GUSRam s = (\<lambda>a. 0)"
    using past_end_writes_run by blast
  have d: "\<forall>i. 0 < i \<and> i < Suc 13 \<longrightarrow>
             RampCtrl (guschan s ! i) AND WaveCtrl (guschan s ! i) AND 3 \<noteq> 0"
    using vi by (simp add: new_GUSChannels_def)
  have l': "Suc 13 \<le> length (guschan s)" using l by simp
  have ne: "guschan s \<noteq> []" using l by auto
  have mv: "mix_voices exact_env ram len (take 14 (guschan s)) acc h =
     bind_res (generateSamples exact_env ram acc (peak_amplitude h) len (guschan s ! 0) h)
       (\<lambda>(acc', peak', v', g').
          Inr (v' # take 13 (tl (guschan s)), acc', g'\<lparr> peak_amplitude := peak' \<rparr>))"
    for ram len acc h
    using mix_voices_first [OF l' d, of exact_env ram len acc h] by simp
  have n14: "unat (ActiveChannels (myGUS s)) = 14" by (simp add: g)
  have pk: "peak_amplitude (myGUS s) = \<lparr> left = 1, right = 1 \<rparr>"
    by (simp add: g myGUS_fresh default_GFGus_def exact_env_def)
  have z: "fround exact_env 0 = 0" by (simp add: exact_env_def)
  have pg: "(myGUS s)\<lparr> peak_amplitude := \<lparr> left = 1, right = 1 \<rparr> \<rparr> = myGUS s"
    by (simp add: pk [symmetric])
  define v1 where "v1 = (new_GUSChannels 0)
        \<lparr> WaveCtrl := 0, RampCtrl := 7, WaveAddr := 0x20000000, WaveFreq := 2, WaveAdd := 1,
          generated_8bit_ms := 1 \<rparr>"
  have gs: "generateSamples exact_env (GUSRam s)
              (replicate 64 \<lparr> left = 0, right = 0 \<rparr>) \<lparr> left = 1, right = 1 \<rparr> 1 (guschan s ! 0) (myGUS s)
            = Inr (replicate 64 \<lparr> left = 0, right = 0 \<rparr>, \<lparr> left = 1, right = 1 \<rparr>, v1, myGUS s)"
    unfolding v0 m v1_def
    by (simp add: generateSamples_def generate_frame_def get_sample_def GetSample8_def
        ram_read_def vol_scalar_at_def pan_scalar_at_def WaveUpdate_def RampUpdate_def
        bump_generated_ms_def new_GUSChannels_def exact_env_def exact_pan_def f_of_int_def
        fmax_def eval_defs list_update_same_conv)
  have acc: "accumulate exact_env 1 s
             = Inr ((guschan s)[0 := v1], replicate 64 \<lparr> left = 0, right = 0 \<rparr>, myGUS s)"
    unfolding accumulate_def Let_def n14 GUS_BUFFER_FRAMES_def z
    using l first_update [OF ne, of v1 13]
    by (simp add: mv pk gs [unfolded One_nat_def] pg)
  have fl: "fless exact_env (left (peak_amplitude (myGUS s))) (max_allowed exact_env)"
    and fr: "fless exact_env (right (peak_amplitude (myGUS s))) (max_allowed exact_env)"
    by (simp_all add: pk max_allowed_def f_of_int_def exact_env_def)
  have chk: "CheckVoiceIrq (myGUS s) = Inr (myGUS s)"
    by (simp add: CheckVoiceIrq_def Let_def g myGUS_fresh default_GFGus_def)
  have t: "to_i16_frames exact_env (take 1 (replicate 64 \<lparr> left = 0, right = 0 \<rparr>)) = Inr [(0, 0)]"
    by (simp add: exact_env_def exact_to_i16_def)
  define s1 where "s1 = s\<lparr> myGUS := myGUS s, guschan := (guschan s)[0 := v1] \<rparr>"
  have cb: "GUS_CallBack exact_env 1 s = Inr ([(0, 0)], s1)"
    unfolding GUS_CallBack_unlimited [OF acc fl fr] t chk s1_def by simp
  have "run exact_env past_end_setup (fresh_card exact_env 0x240 3 5) = Inr s1"
    unfolding past_end_setup_def run_append r by (simp add: step_def cb [unfolded One_nat_def])
  moreover have "unat (ActiveChannels (myGUS s1)) = 14" by (simp add: s1_def n14)
  moreover have "length (guschan s1) = 32" by (simp add: s1_def l)
  moreover have "guschan s1 ! 0 = v1" using l by (simp add: s1_def)
  moreover have "\<forall>i. 0 < i \<and> i < 32 \<longrightarrow>
      guschan s1 ! i = (new_GUSChannels i)\<lparr> WaveCtrl := 1, RampCtrl := 1 \<rparr>"
    using vi by (simp add: s1_def)
  moreover have "GUSRam s1 = (\<lambda>a. 0)" by (simp add: s1_def m)
  ultimately show ?thesis unfolding v1_def by blast
qed

lemma generateSamples_fault:
  "RampCtrl v AND WaveCtrl v AND 3 = 0 \<Longrightarrow> get_sample E ram v = Inl e \<Longrightarrow>
   generateSamples E ram stream peak (Suc n) v g = Inl e"
  by (simp add: generateSamples_def generate_frame_def)

text \<open>
  Claim C3: on exact numbers \<^verbatim>\<open>GetSample8\<close> returns the value of the specification
  whenever the byte address \<open>wave_addr >> 9\<close> of the current sample lies inside the sample
  memory, and reads \<^verbatim>\<open>GUSRam\<close> past its end otherwise: the address of the current sample
  is not wrapped modulo \<open>2^20\<close> (only that of the next sample is). The host can bring a
  voice there: after the writes of \<open>past_end_setup\<close> and one mixed frame, voice 0 is
  playing with \<open>wave_addr = 0x20000000\<close>, that is byte address \<open>2^20\<close>, where the
  specification reads \<open>memory[0]\<close>; the sampler and with it the next mix callback read the
  byte after the last byte of \<^verbatim>\<open>GUSRam\<close>.
\<close>

theorem C3_sampler8:
  "GetSample8 exact_env ram v =
     (if unat (WaveAddr v) div 2 ^ 9 < 2 ^ 20 then Inr (spec_sampler8 ram v)
      else Inl OutOfBounds) \<and>
   (\<exists>s. run exact_env past_end_setup (fresh_card exact_env 0x240 3 5) = Inr s) \<and>
   reachable exact_env (card_at past_end_setup) \<and>
   WaveCtrl (guschan (card_at past_end_setup) ! 0) = 0 \<and>
   WaveAddr (guschan (card_at past_end_setup) ! 0) = 0x20000000 \<and>
   spec_sampler8 (GUSRam (card_at past_end_setup)) (guschan (card_at past_end_setup) ! 0) = 0 \<and>
   GetSample8 exact_env (GUSRam (card_at past_end_setup)) (guschan (card_at past_end_setup) ! 0)
     = Inl OutOfBounds \<and>
   step exact_env (Mix 1) (card_at past_end_setup) = Inl OutOfBounds"
proof -
  obtain s where r: "run exact_env past_end_setup (fresh_card exact_env 0x240 3 5) = Inr s"
    and n14: "unat (ActiveChannels (myGUS s)) = 14" and l: "length (guschan s) = 32"
    and v0: "guschan s ! 0 = (new_GUSChannels 0)
        \<lparr> WaveCtrl := 0, RampCtrl := 7, WaveAddr := 0x20000000, WaveFreq := 2, WaveAdd := 1,
          generated_8bit_ms := 1 \<rparr>"
    and vi: "\<forall>i. 0 < i \<and> i < 32 \<longrightarrow> guschan s ! i = (new_GUSChannels i)\<lparr> WaveCtrl := 1, RampCtrl := 1 \<rparr>"
    and m: "GUSRam s = (\<lambda>a. 0)"
    using past_end_run by blast
  have c: "card_at past_end_setup = s" and re: "reachable exact_env s"
    using card_at_run [OF r] by simp_all
  have wc: "WaveCtrl (guschan s ! 0) = 0" and wa: "WaveAddr (guschan s ! 0) = 0x20000000"
    by (simp_all add: v0)
  have sp: "spec_sampler8 (GUSRam s) (guschan s ! 0) = 0"
    by (simp add: spec_sampler8_def m v0 new_GUSChannels_def)
  have gs8: "GetSample8 exact_env (GUSRam s) (guschan s ! 0) = Inl OutOfBounds"
    unfolding GetSample8_exact by (simp add: wa)
  have en: "RampCtrl (guschan s ! 0) AND WaveCtrl (guschan s ! 0) AND 3 = 0"
    and g8: "get_sample exact_env (GUSRam s) (guschan s ! 0) = Inl OutOfBounds"
    using gs8 by (simp_all add: get_sample_def v0 new_GUSChannels_def)
  have d: "\<forall>i. 0 < i \<and> i < Suc 13 \<longrightarrow>
             RampCtrl (guschan s ! i) AND WaveCtrl (guschan s ! i) AND 3 \<noteq> 0"
    using vi by (simp add: new_GUSChannels_def)
  have l': "Suc 13 \<le> length (guschan s)" using l by simp
  have mv: "mix_voices exact_env (GUSRam s) (Suc 0) (take 14 (guschan s)) acc h = Inl OutOfBounds"
    for acc h
    using mix_voices_first [OF l' d, of exact_env "GUSRam s" "Suc 0" acc h]
      generateSamples_fault [OF en g8, of acc "peak_amplitude h" 0 h]
    by simp
  have "accumulate exact_env 1 s = Inl OutOfBounds"
    unfolding accumulate_def Let_def n14 using l by (simp add: mv)
  then have st: "step exact_env (Mix 1) s = Inl OutOfBounds"
    by (simp add: step_def GUS_CallBack_def)
  from r re wc wa sp gs8 st show ?thesis unfolding c by (simp add: GetSample8_exact)
qed


end
